theory Spec2Isabelle
  imports Complex_Main "HOL-Library.Multiset"
begin

text \<open>
  The messages controller (src/controllers/messages.js) of the direct-messaging backend:
  message CRUD, the two paged listings, and \<open>send\<close> with its conversation state
  machine and notification fan-out. The controller runs on a document store and three
  collaborators; the store is an explicit state that every operation takes and returns,
  every \<open>throw\<close> is an \<open>Inl\<close> result, and an operation that fails returns the state
  it had reached.
\<close>

section \<open>Values and documents of controllers/messages.js\<close>

text \<open>
  An optional JavaScript value: a parameter or a document field is \<open>undefined\<close> (the key
  is absent), \<open>null\<close>, or holds a value. The controller only ever tests such values for
  truthiness.
\<close>

datatype 'a js = Undefined | Null | Val 'a

text \<open>\<open>if (x)\<close> on a string: the empty string is falsy.\<close>

fun truthy_str :: "string js \<Rightarrow> bool" where
  "truthy_str (Val s) = (s \<noteq> [])"
| "truthy_str _ = False"

text \<open>\<open>if (x)\<close> on a number: zero is falsy.\<close>

fun truthy_num :: "nat js \<Rightarrow> bool" where
  "truthy_num (Val n) = (n \<noteq> 0)"
| "truthy_num _ = False"

text \<open>\<open>if (x)\<close> on an object, an array or an ObjectId: every value is truthy.\<close>

fun truthy_obj :: "'a js \<Rightarrow> bool" where
  "truthy_obj (Val x) = True"
| "truthy_obj _ = False"

text \<open>
  An ObjectId. The store hands out fresh ones from a counter. Identifiers that reach the
  controller are well-formed ObjectIds of this type, so the casts \<open>ObjectId(x)\<close> are the
  identity, \<open>isValidObjectId\<close> holds and \<open>a.equals(b)\<close> is equality.
\<close>

type_synonym oid = nat

text \<open>
  \<open>new Error("<message>|||<code>")\<close> is \<open>Error message code\<close>; \<open>TypeError\<close> is the
  runtime's own exception on a property read of \<open>null\<close>/\<open>undefined\<close>; \<open>Rejected\<close>
  is a rejection coming out of one of the awaited collaborators.
\<close>

datatype error = Error string nat | TypeError string | Rejected string

text \<open>
  The runtime's TypeError for a property read on \<open>null\<close> or \<open>undefined\<close>, with its
  message \<open>Cannot read properties of null (reading 'fcms')\<close>; \<open>CHR 0x27\<close> is the
  single quote.
\<close>

definition cannot_read :: "string \<Rightarrow> string \<Rightarrow> error" where
  "cannot_read what prop =
     TypeError (''Cannot read properties of '' @ what @ '' (reading '' @ [CHR 0x27] @ prop @
                [CHR 0x27] @ '')'')"

text \<open>
  The error taxonomy: the code embedded in the message decides the kind (400 is
  InvalidArgument, 404 is NotFound); ConversationBlocked is the rejection error of \<open>send\<close>.
\<close>

fun InvalidArgument :: "error \<Rightarrow> bool" where
  "InvalidArgument (Error m c) = (c = 400)"
| "InvalidArgument _ = False"

fun NotFound :: "error \<Rightarrow> bool" where
  "NotFound (Error m c) = (c = 404)"
| "NotFound _ = False"

definition ConversationBlocked :: error where
  "ConversationBlocked = Error ''Conversation request rejected!'' 400"

text \<open>
  The enumerations of configs/enums.js, with the members that the controller destructures
  (PENDING, ACCEPTED, REJECTED, NEW_MESSAGE, READ) and the default message status SENT.
\<close>

datatype message_status = SENT | READ

datatype conversation_status = PENDING | ACCEPTED | REJECTED

datatype notification_type = NEW_MESSAGE

text \<open>An uploaded file as the upload middleware hands it over.\<close>

record upload =
  path :: "string js"
  filename :: "string js"
  mimetype :: "string js"

text \<open>A stored attachment \<open>{ path, type }\<close>.\<close>

record attachment =
  a_path :: "string js"
  a_type :: "string js"

text \<open>A message document (fields \<open>_id\<close>, \<open>userFrom\<close>, \<open>userTo\<close>, ...).\<close>

record message =
  m_id :: oid
  m_userFrom :: "oid js"
  m_userTo :: "oid js"
  m_conversation :: "oid js"
  m_text :: "string js"
  m_attachments :: "attachment list js"
  m_status :: message_status
  m_createdAt :: nat

text \<open>A conversation document.\<close>

record conversation =
  c_id :: oid
  c_userFrom :: oid
  c_userTo :: oid
  c_status :: conversation_status
  c_lastMessage :: "oid js"

record fcm =
  token :: string

record user =
  u_id :: oid
  u_name :: "string js"
  u_image :: "string js"
  fcms :: "fcm list"

text \<open>The notification object handed to \<open>notificationsController.addNotification\<close>.\<close>

record notification =
  n_user :: "oid js"
  n_message :: oid
  n_messenger :: "oid js"
  n_type :: notification_type

text \<open>
  The calls \<open>send\<close> hands to its three collaborators: \<open>SocketManager.emitEvent\<close>
  (\<open>to\<close>, the event name \<open>"newMessage_" + conversation\<close> as prefix and id, \<open>data\<close>),
  \<open>addNotification\<close>, and \<open>FirebaseManager.notify\<close> (\<open>fcms\<close>, \<open>title\<close>, \<open>body\<close>,
  \<open>data.type\<close>).
\<close>

datatype effect =
    EmitEvent oid "string \<times> oid js" message
  | AddNotification notification
  | Notify "string list" string string notification_type

text \<open>
  The collaborators are not part of the controller: each is a function that says, for the
  call it receives, whether it rejects (\<open>Some e\<close>) or resolves (\<open>None\<close>).
\<close>

record env =
  emitEvent :: "oid \<Rightarrow> string \<times> oid js \<Rightarrow> message \<Rightarrow> error option"
  addNotification :: "notification \<Rightarrow> error option"
  notify :: "string list \<Rightarrow> string \<Rightarrow> string \<Rightarrow> notification_type \<Rightarrow> error option"

text \<open>
  The document store behind \<open>messagesModel\<close>, \<open>conversationsModel\<close> and \<open>usersModel\<close>
  (collections in insertion order), the ObjectId counter, the clock that stamps
  \<open>createdAt\<close>, and the calls handed to the collaborators so far.
\<close>

record state =
  messagesModel :: "message list"
  conversationsModel :: "conversation list"
  usersModel :: "user list"
  next_oid :: oid
  clock :: nat
  effects :: "effect list"

section \<open>Store operations\<close>

text \<open>
  Modelled from the spec: the schemas (models/index.js) are not among the sources; a new
  message gets the default status SENT, a new conversation the default status PENDING and
  no lastMessage. \<open>create\<close> assigns a fresh \<open>_id\<close> and the creation time.
\<close>

record messageObj =
  o_userFrom :: "oid js"
  o_userTo :: "oid js"
  o_conversation :: "oid js"
  o_text :: "string js"
  o_attachments :: "attachment list js"

definition messages_create :: "state \<Rightarrow> messageObj \<Rightarrow> message \<times> state" where
  "messages_create s obj =
     (let doc = \<lparr> m_id = next_oid s, m_userFrom = o_userFrom obj, m_userTo = o_userTo obj,
                  m_conversation = o_conversation obj, m_text = o_text obj,
                  m_attachments = o_attachments obj, m_status = SENT,
                  m_createdAt = clock s \<rparr>
      in (doc, s\<lparr> messagesModel := messagesModel s @ [doc], next_oid := Suc (next_oid s) \<rparr>))"

definition conversations_create :: "state \<Rightarrow> oid \<Rightarrow> oid \<Rightarrow> conversation \<times> state" where
  "conversations_create s uTo uFrom =
     (let doc = \<lparr> c_id = next_oid s, c_userFrom = uFrom, c_userTo = uTo,
                  c_status = PENDING, c_lastMessage = Undefined \<rparr>
      in (doc, s\<lparr> conversationsModel := conversationsModel s @ [doc],
                  next_oid := Suc (next_oid s) \<rparr>))"

text \<open>\<open>doc.save()\<close>: the stored document with that \<open>_id\<close> takes the document's fields.\<close>

definition conversation_save :: "state \<Rightarrow> conversation \<Rightarrow> state" where
  "conversation_save s doc =
     s\<lparr> conversationsModel :=
          map (\<lambda>c. if c_id c = c_id doc then doc else c) (conversationsModel s) \<rparr>"

text \<open>\<open>findByIdAndDelete\<close>: removes the first document with that \<open>_id\<close>.\<close>

fun delete_by_id :: "oid \<Rightarrow> message list \<Rightarrow> message list" where
  "delete_by_id i [] = []"
| "delete_by_id i (m # ms) = (if m_id m = i then ms else m # delete_by_id i ms)"

section \<open>Message CRUD\<close>

record addMessage_params =
  ap_userFrom :: "oid js"
  ap_userTo :: "oid js"
  ap_text :: "string js"
  ap_attachments :: "upload list js"
  ap_conversation :: "oid js"

text \<open>The \<open>forEach\<close> over the uploaded files.\<close>

fun push_attachments :: "upload list \<Rightarrow> attachment list" where
  "push_attachments [] = []"
| "push_attachments (f # fs) =
     (if truthy_str (path f)
      then \<lparr> a_path = filename f, a_type = mimetype f \<rparr> # push_attachments fs
      else push_attachments fs)"

definition build_messageObj :: "addMessage_params \<Rightarrow> messageObj" where
  "build_messageObj p =
     \<lparr> o_userFrom = (if truthy_obj (ap_userFrom p) then ap_userFrom p else Undefined),
       o_userTo = (if truthy_obj (ap_userTo p) then ap_userTo p else Undefined),
       o_conversation = (if truthy_obj (ap_conversation p) then ap_conversation p else Undefined),
       o_text = (if truthy_str (ap_text p) then ap_text p else Undefined),
       o_attachments = (case ap_attachments p of
                          Val fs \<Rightarrow> Val (push_attachments fs)
                        | _ \<Rightarrow> Undefined) \<rparr>"

definition addMessage :: "state \<Rightarrow> addMessage_params \<Rightarrow> message \<times> state" where
  "addMessage s p = messages_create s (build_messageObj p)"

text \<open>
  \<open>updateMessage\<close>: the \<open>isValidObjectId\<close> test is passed by every id of type \<open>oid\<close>,
  so its \<open>throw\<close> has no branch here.
\<close>

record updateMessage_params =
  up_message :: "oid js"
  up_text :: "string js"
  up_status :: "message_status js"

definition apply_update :: "updateMessage_params \<Rightarrow> message \<Rightarrow> message" where
  "apply_update p m =
     (let m1 = (if truthy_str (up_text p) then m\<lparr> m_text := up_text p \<rparr> else m)
      in case up_status p of Val st \<Rightarrow> m1\<lparr> m_status := st \<rparr> | _ \<Rightarrow> m1)"

fun update_by_id :: "oid \<Rightarrow> (message \<Rightarrow> message) \<Rightarrow> message list \<Rightarrow> message list" where
  "update_by_id i f [] = []"
| "update_by_id i f (m # ms) = (if m_id m = i then f m # ms else m # update_by_id i f ms)"

definition updateMessage :: "state \<Rightarrow> updateMessage_params \<Rightarrow> (error + message) \<times> state" where
  "updateMessage s p =
     (case up_message p of
        Val i \<Rightarrow>
          (case find (\<lambda>m. m_id m = i) (messagesModel s) of
             Some m \<Rightarrow> (Inr (apply_update p m),
                        s\<lparr> messagesModel := update_by_id i (apply_update p) (messagesModel s) \<rparr>)
           | None \<Rightarrow> (Inl (Error ''Message not found!'' 404), s))
      | _ \<Rightarrow> (Inl (Error ''Please enter message id!'' 400), s))"

definition deleteMessage :: "state \<Rightarrow> oid js \<Rightarrow> (error + message) \<times> state" where
  "deleteMessage s message =
     (case message of
        Val i \<Rightarrow>
          (case find (\<lambda>m. m_id m = i) (messagesModel s) of
             Some m \<Rightarrow> (Inr m, s\<lparr> messagesModel := delete_by_id i (messagesModel s) \<rparr>)
           | None \<Rightarrow> (Inl (Error ''Please enter valid message id!'' 400), s))
      | _ \<Rightarrow> (Inl (Error ''Please enter message id!'' 400), s))"

record readMessages_params =
  rp_conversation :: "oid js"
  rp_userTo :: "oid js"

definition readMessages :: "state \<Rightarrow> readMessages_params \<Rightarrow> (error + string) \<times> state" where
  "readMessages s p =
     (case rp_userTo p of
        Val u \<Rightarrow>
          if list_ex (\<lambda>x. u_id x = u) (usersModel s) then
            (case rp_conversation p of
               Val c \<Rightarrow>
                 if list_ex (\<lambda>x. c_id x = c) (conversationsModel s) then
                   (Inr ''messages read successfully!'',
                    s\<lparr> messagesModel :=
                         map (\<lambda>m. if m_conversation m = Val c \<and> m_userTo m = Val u
                                   then m\<lparr> m_status := READ \<rparr> else m) (messagesModel s) \<rparr>)
                 else (Inl (Error ''Please enter valid conversation id!'' 400), s)
             | _ \<Rightarrow> (Inl (Error ''Please enter conversation id!'' 400), s))
          else (Inl (Error ''Please enter valid userTo id!'' 400), s)
      | _ \<Rightarrow> (Inl (Error ''Please enter userTo id!'' 400), s))"

section \<open>Pagination\<close>

text \<open>
  \<open>page\<close> and \<open>limit\<close> are natural numbers when they are supplied: \<open>$skip\<close> and
  \<open>$limit\<close> take nothing else.
\<close>

text \<open>\<open>if (!limit) limit = 10\<close>.\<close>

definition limit_of :: "nat js \<Rightarrow> nat" where
  "limit_of l = (if truthy_num l then (case l of Val n \<Rightarrow> n | _ \<Rightarrow> 10) else 10)"

text \<open>\<open>if (!page) page = 0; if (page) page = page - 1\<close>.\<close>

definition page_of :: "nat js \<Rightarrow> nat" where
  "page_of pg =
     (let page = (if truthy_num pg then (case pg of Val n \<Rightarrow> n | _ \<Rightarrow> 0) else 0)
      in if page \<noteq> 0 then page - 1 else page)"

text \<open>\<open>{ $ceil: { $divide: [totalCount, limit] } }\<close>.\<close>

definition ceil_divide :: "nat \<Rightarrow> nat \<Rightarrow> nat" where
  "ceil_divide n l = nat \<lceil>real n / real l\<rceil>"

record 'a page =
  success :: bool
  data :: "'a list"
  totalCount :: nat
  totalPages :: nat

text \<open>
  The tail of both pipelines: \<open>$facet\<close> (count, and the \<open>$skip\<close>/\<open>$limit\<close> slice),
  \<open>$unwind\<close> of the count (which drops the only document when nothing was counted), the
  final \<open>$project\<close>, and the spread of \<open>result[0]\<close> over the defaults.
\<close>

definition facet :: "nat \<Rightarrow> nat \<Rightarrow> 'a list \<Rightarrow> 'a page" where
  "facet page limit rows =
     (if rows = [] then \<lparr> success = True, data = [], totalCount = 0, totalPages = 0 \<rparr>
      else \<lparr> success = True, data = take limit (drop (page * limit) rows),
             totalCount = length rows, totalPages = ceil_divide (length rows) limit \<rparr>)"

section \<open>getMessages\<close>

record getMessages_params =
  gp_conversation :: "oid js"
  gp_page :: "nat js"
  gp_limit :: "nat js"
  gp_user1 :: "oid js"
  gp_user2 :: "oid js"

text \<open>A message after \<open>{ $project: { createdAt: 0, updatedAt: 0, __v: 0 } }\<close>.\<close>

record message_view =
  v_id :: oid
  v_userFrom :: "oid js"
  v_userTo :: "oid js"
  v_conversation :: "oid js"
  v_text :: "string js"
  v_attachments :: "attachment list js"
  v_status :: message_status

definition strip :: "message \<Rightarrow> message_view" where
  "strip m = \<lparr> v_id = m_id m, v_userFrom = m_userFrom m, v_userTo = m_userTo m,
               v_conversation = m_conversation m, v_text = m_text m,
               v_attachments = m_attachments m, v_status = m_status m \<rparr>"

text \<open>The \<open>$match\<close> query; \<open>None\<close> is the \<open>throw\<close> of the last branch.\<close>

definition messages_query :: "getMessages_params \<Rightarrow> (message \<Rightarrow> bool) option" where
  "messages_query p =
     (case gp_conversation p of
        Val c \<Rightarrow> Some (\<lambda>m. m_conversation m = Val c)
      | _ \<Rightarrow>
        (case (gp_user1 p, gp_user2 p) of
           (Val user1, Val user2) \<Rightarrow>
             Some (\<lambda>m. (m_userTo m = Val user1 \<and> m_userFrom m = Val user2) \<or>
                        (m_userFrom m = Val user1 \<and> m_userTo m = Val user2))
         | _ \<Rightarrow> None))"

text \<open>
  \<open>{ $sort: { createdAt: -1 } }\<close>. The store leaves the order of documents with equal
  keys open; here they keep their order.
\<close>

definition sort_createdAt_desc :: "message list \<Rightarrow> message list" where
  "sort_createdAt_desc ms = sort_key (\<lambda>m. - int (m_createdAt m)) ms"

definition getMessages :: "state \<Rightarrow> getMessages_params \<Rightarrow> error + message_view page" where
  "getMessages s p =
     (let limit = limit_of (gp_limit p); page = page_of (gp_page p)
      in case messages_query p of
           None \<Rightarrow> Inl (Error ''Please enter conversation id!'' 400)
         | Some query \<Rightarrow>
             Inr (facet page limit
                    (map strip (sort_createdAt_desc (filter query (messagesModel s))))))"

section \<open>getConversations\<close>

record getConversations_params =
  cp_user :: "oid js"
  cp_q :: "string js"
  cp_limit :: "nat js"
  cp_page :: "nat js"

text \<open>
  \<open>String.prototype.trim\<close>, on the white space that a \<open>char\<close> holds: tab, line feed,
  vertical tab, form feed, carriage return, space and no-break space.
\<close>

definition is_space :: "char \<Rightarrow> bool" where
  "is_space c =
     (c \<in> set [CHR 0x09, CHR 0x0A, CHR 0x0B, CHR 0x0C, CHR 0x0D, CHR 0x20, CHR 0xA0])"

definition trim :: "string \<Rightarrow> string" where
  "trim s = rev (dropWhile is_space (rev (dropWhile is_space s)))"

definition keyword_of :: "string js \<Rightarrow> string" where
  "keyword_of q = (if truthy_str q then (case q of Val s \<Rightarrow> trim s | _ \<Rightarrow> []) else [])"

text \<open>The projection of the looked-up last message: text, userFrom, createdAt, attachments.type.\<close>

record last_message =
  lm_id :: oid
  lm_text :: "string js"
  lm_userFrom :: "oid js"
  lm_createdAt :: nat
  lm_attachments :: "string js list js"

definition project_last :: "message \<Rightarrow> last_message" where
  "project_last m =
     \<lparr> lm_id = m_id m, lm_text = m_text m, lm_userFrom = m_userFrom m,
       lm_createdAt = m_createdAt m,
       lm_attachments = (case m_attachments m of
                           Val as \<Rightarrow> Val (map a_type as)
                         | Null \<Rightarrow> Null
                         | Undefined \<Rightarrow> Undefined) \<rparr>"

text \<open>The projection of the looked-up user: name and image.\<close>

record user_view =
  uv_id :: oid
  uv_name :: "string js"
  uv_image :: "string js"

definition project_user :: "user \<Rightarrow> user_view" where
  "project_user u = \<lparr> uv_id = u_id u, uv_name = u_name u, uv_image = u_image u \<rparr>"

text \<open>A conversation after the first \<open>$lookup\<close>/\<open>$unwind\<close>, and after the last.\<close>

record conversation_joined =
  j_conversation :: conversation
  j_lastMessage :: last_message

record conversation_view =
  cv_id :: oid
  cv_user :: user_view
  cv_lastMessage :: last_message

text \<open>\<open>if (user) query.$or = [{ userTo: user }, { userFrom: user }]\<close>.\<close>

definition conversations_query :: "oid js \<Rightarrow> conversation \<Rightarrow> bool" where
  "conversations_query user c =
     (case user of Val u \<Rightarrow> c_userTo c = u \<or> c_userFrom c = u | _ \<Rightarrow> True)"

text \<open>The \<open>$cond\<close> that picks the \<open>user\<close> field.\<close>

definition peer_of :: "oid js \<Rightarrow> conversation \<Rightarrow> oid" where
  "peer_of user c = (if Val (c_userTo c) = user then c_userFrom c else c_userTo c)"

text \<open>First \<open>$lookup\<close> (messages by \<open>_id\<close>, projected) and \<open>$unwind\<close>.\<close>

definition lookup_lastMessage :: "message list \<Rightarrow> conversation \<Rightarrow> conversation_joined list" where
  "lookup_lastMessage ms c =
     map (\<lambda>m. \<lparr> j_conversation = c, j_lastMessage = project_last m \<rparr>)
         (filter (\<lambda>m. Val (m_id m) = c_lastMessage c) ms)"

text \<open>\<open>{ $sort: { "lastMessage.createdAt": -1 } }\<close>.\<close>

definition sort_lastMessage_desc :: "conversation_joined list \<Rightarrow> conversation_joined list" where
  "sort_lastMessage_desc js = sort_key (\<lambda>j. - int (lm_createdAt (j_lastMessage j))) js"

text \<open>
  Second \<open>$lookup\<close> (users by \<open>_id\<close>, name matched against the keyword, projected) and
  \<open>$unwind\<close>. The regular-expression engine of the store is the parameter \<open>regex_i\<close>:
  \<open>regex_i keyword name\<close> says whether \<open>{ $regex: keyword, $options: "i" }\<close> matches.
\<close>

definition name_matches :: "(string \<Rightarrow> string \<Rightarrow> bool) \<Rightarrow> string \<Rightarrow> user \<Rightarrow> bool" where
  "name_matches regex_i keyword u =
     (case u_name u of Val n \<Rightarrow> regex_i keyword n | _ \<Rightarrow> False)"

definition lookup_user ::
  "(string \<Rightarrow> string \<Rightarrow> bool) \<Rightarrow> string \<Rightarrow> oid js \<Rightarrow> user list \<Rightarrow> conversation_joined
     \<Rightarrow> conversation_view list" where
  "lookup_user regex_i keyword user us j =
     map (\<lambda>u. \<lparr> cv_id = c_id (j_conversation j), cv_user = project_user u,
                cv_lastMessage = j_lastMessage j \<rparr>)
         (filter (\<lambda>u. u_id u = peer_of user (j_conversation j) \<and> name_matches regex_i keyword u) us)"

definition conversation_rows ::
  "(string \<Rightarrow> string \<Rightarrow> bool) \<Rightarrow> state \<Rightarrow> oid js \<Rightarrow> string \<Rightarrow> conversation_view list" where
  "conversation_rows regex_i s user keyword =
     concat (map (lookup_user regex_i keyword user (usersModel s))
       (sort_lastMessage_desc
          (concat (map (lookup_lastMessage (messagesModel s))
             (filter (conversations_query user) (conversationsModel s))))))"

definition getConversations ::
  "(string \<Rightarrow> string \<Rightarrow> bool) \<Rightarrow> state \<Rightarrow> getConversations_params
     \<Rightarrow> error + conversation_view page" where
  "getConversations regex_i s p =
     (let limit = limit_of (cp_limit p); page = page_of (cp_page p);
          keyword = keyword_of (cp_q p)
      in Inr (facet page limit (conversation_rows regex_i s (cp_user p) keyword)))"

section \<open>send\<close>

record send_params =
  sp_userFrom :: oid
  sp_userTo :: oid
  sp_username :: "string js"
  sp_text :: "string js"
  sp_attachments :: "upload list js"

text \<open>The symmetric query of \<open>conversationsModel.findOne\<close>.\<close>

definition pair_query :: "oid \<Rightarrow> oid \<Rightarrow> conversation \<Rightarrow> bool" where
  "pair_query userFrom userTo c =
     ((c_userTo c = userFrom \<and> c_userFrom c = userTo) \<or>
      (c_userFrom c = userFrom \<and> c_userTo c = userTo))"

text \<open>
  The first part of \<open>send\<close>, up to the point where \<open>conversationExists\<close> is settled: find
  the conversation of the pair, accept it when the recipient replies, refuse when it was
  rejected, create it when there is none.
\<close>

definition resolve :: "state \<Rightarrow> oid \<Rightarrow> oid \<Rightarrow> (error + conversation) \<times> state" where
  "resolve s userFrom userTo =
     (case find (pair_query userFrom userTo) (conversationsModel s) of
        Some conversationExists \<Rightarrow>
          if c_status conversationExists = PENDING then
            if userFrom = c_userTo conversationExists then
              (let accepted = conversationExists\<lparr> c_status := ACCEPTED \<rparr>
               in (Inr accepted, conversation_save s accepted))
            else (Inr conversationExists, s)
          else if c_status conversationExists = REJECTED then
            (Inl (Error ''Conversation request rejected!'' 400), s)
          else (Inr conversationExists, s)
      | None \<Rightarrow>
          (case conversations_create s userTo userFrom of
             (created, s') \<Rightarrow> (Inr created, s')))"

text \<open>The template literal \<open>`New message from ${username}`\<close>.\<close>

definition body_of :: "string js \<Rightarrow> string" where
  "body_of username =
     ''New message from '' @
       (case username of Val n \<Rightarrow> n | Undefined \<Rightarrow> ''undefined'' | Null \<Rightarrow> ''null'')"

definition log_effect :: "state \<Rightarrow> effect \<Rightarrow> state" where
  "log_effect s e = s\<lparr> effects := effects s @ [e] \<rparr>"

text \<open>
  The second part of \<open>send\<close>, after the conversation was saved: the socket event, the
  notification record, the push tokens of the receiver and the push notification, each
  awaited in turn.
\<close>

definition fan_out :: "env \<Rightarrow> state \<Rightarrow> string js \<Rightarrow> message \<Rightarrow> (error + message) \<times> state" where
  "fan_out env s username message =
     (case m_userTo message of
        Val to \<Rightarrow>
          (let event = (''newMessage_'', m_conversation message);
               s1 = log_effect s (EmitEvent to event message)
           in case emitEvent env to event message of
                Some e \<Rightarrow> (Inl e, s1)
              | None \<Rightarrow>
                  (let notificationObj = \<lparr> n_user = m_userTo message, n_message = m_id message,
                                            n_messenger = m_userFrom message, n_type = NEW_MESSAGE \<rparr>;
                       s2 = log_effect s1 (AddNotification notificationObj)
                   in case addNotification env notificationObj of
                        Some e \<Rightarrow> (Inl e, s2)
                      | None \<Rightarrow>
                          (case find (\<lambda>u. u_id u = to) (usersModel s2) of
                             None \<Rightarrow>
                               (Inl (cannot_read ''null'' ''fcms''), s2)
                           | Some userToExists \<Rightarrow>
                               (let tokens = map token (fcms userToExists);
                                    title = ''New Message'';
                                    body = body_of username;
                                    s3 = log_effect s2 (Notify tokens title body NEW_MESSAGE)
                                in case notify env tokens title body NEW_MESSAGE of
                                     Some e \<Rightarrow> (Inl e, s3)
                                   | None \<Rightarrow> (Inr message, s3)))))
      | Null \<Rightarrow> (Inl (cannot_read ''null'' ''toString''), s)
      | Undefined \<Rightarrow> (Inl (cannot_read ''undefined'' ''toString''), s))"

definition send :: "env \<Rightarrow> state \<Rightarrow> send_params \<Rightarrow> (error + message) \<times> state" where
  "send env s params =
     (case resolve s (sp_userFrom params) (sp_userTo params) of
        (Inl e, s1) \<Rightarrow> (Inl e, s1)
      | (Inr conversationExists, s1) \<Rightarrow>
          (case addMessage s1 \<lparr> ap_userFrom = Val (sp_userFrom params),
                                ap_userTo = Val (sp_userTo params), ap_text = sp_text params,
                                ap_attachments = sp_attachments params,
                                ap_conversation = Val (c_id conversationExists) \<rparr> of
             (message, s2) \<Rightarrow>
               (let s3 = conversation_save s2
                           (conversationExists\<lparr> c_lastMessage := Val (m_id message) \<rparr>)
                in fan_out env s3 (sp_username params) message)))"

section \<open>Properties of the store and the resolved state\<close>

text \<open>The status stored for the conversation with a given \<open>_id\<close>.\<close>

definition status_of :: "state \<Rightarrow> oid \<Rightarrow> conversation_status option" where
  "status_of s i = map_option c_status (find (\<lambda>c. c_id c = i) (conversationsModel s))"

text \<open>
  The store keeps \<open>_id\<close> unique within the conversations, and every \<open>_id\<close> in use is
  older than the ObjectId counter.
\<close>

definition store_ok :: "state \<Rightarrow> bool" where
  "store_ok s =
     (distinct (map c_id (conversationsModel s)) \<and>
      (\<forall>c \<in> set (conversationsModel s). c_id c < next_oid s))"

text \<open>The status a conversation has after a send by \<open>uf\<close> resolved to it.\<close>

definition accept_status :: "oid \<Rightarrow> conversation \<Rightarrow> conversation_status" where
  "accept_status uf c = (if c_status c = PENDING \<and> uf = c_userTo c then ACCEPTED else c_status c)"

text \<open>
  The conversations that make it through the pipeline of \<open>getConversations\<close>: matched by
  the participant query, with a last message in the store, and with the picked user in
  the store under a name that matches the keyword.
\<close>

definition listed ::
  "(string \<Rightarrow> string \<Rightarrow> bool) \<Rightarrow> state \<Rightarrow> oid js \<Rightarrow> string \<Rightarrow> conversation \<Rightarrow> bool" where
  "listed regex_i s user keyword c =
     (conversations_query user c \<and>
      (\<exists>m \<in> set (messagesModel s). Val (m_id m) = c_lastMessage c) \<and>
      (\<exists>u \<in> set (usersModel s). u_id u = peer_of user c \<and> name_matches regex_i keyword u))"

text \<open>
  A regular-expression engine for the concrete calls below, defined on keywords without
  metacharacters: with option \<open>i\<close> such a keyword matches the names that contain it up to
  the case of ASCII letters.
\<close>

definition to_lower :: "char \<Rightarrow> char" where
  "to_lower c =
     (case map_of (zip ''ABCDEFGHIJKLMNOPQRSTUVWXYZ'' ''abcdefghijklmnopqrstuvwxyz'') c of
        Some d \<Rightarrow> d
      | None \<Rightarrow> c)"

fun starts_with :: "string \<Rightarrow> string \<Rightarrow> bool" where
  "starts_with [] ys = True"
| "starts_with (x # xs) [] = False"
| "starts_with (x # xs) (y # ys) = (x = y \<and> starts_with xs ys)"

fun contains :: "string \<Rightarrow> string \<Rightarrow> bool" where
  "contains k [] = (k = [])"
| "contains k (y # ys) = (starts_with k (y # ys) \<or> contains k ys)"

definition literal_i :: "string \<Rightarrow> string \<Rightarrow> bool" where
  "literal_i keyword name = contains (map to_lower keyword) (map to_lower name)"

section \<open>Concrete stores and calls\<close>

definition alice :: user where
  "alice = \<lparr> u_id = 10, u_name = Val ''Alice'', u_image = Undefined,
             fcms = [\<lparr> token = ''tok-a1'' \<rparr>] \<rparr>"

definition bob :: user where
  "bob = \<lparr> u_id = 11, u_name = Val ''Bob'', u_image = Val ''bob.png'', fcms = [] \<rparr>"

definition hi :: message where
  "hi = \<lparr> m_id = 1, m_userFrom = Val 10, m_userTo = Val 11, m_conversation = Val 0,
          m_text = Val ''hi'', m_attachments = Undefined, m_status = SENT, m_createdAt = 5 \<rparr>"

definition hello :: message where
  "hello = \<lparr> m_id = 2, m_userFrom = Val 11, m_userTo = Val 10, m_conversation = Val 0,
             m_text = Val ''hello'', m_attachments = Undefined, m_status = SENT, m_createdAt = 6 \<rparr>"

definition s_empty :: state where
  "s_empty = \<lparr> messagesModel = [], conversationsModel = [], usersModel = [alice, bob],
               next_oid = 0, clock = 0, effects = [] \<rparr>"

text \<open>The store after Alice (10) sent "hi" to Bob (11), and the same with the request rejected.\<close>

definition s_pending :: state where
  "s_pending =
     \<lparr> messagesModel = [hi],
       conversationsModel = [\<lparr> c_id = 0, c_userFrom = 10, c_userTo = 11, c_status = PENDING,
                                c_lastMessage = Val 1 \<rparr>],
       usersModel = [alice, bob], next_oid = 2, clock = 6, effects = [] \<rparr>"

definition s_rejected :: state where
  "s_rejected =
     \<lparr> messagesModel = [hi],
       conversationsModel = [\<lparr> c_id = 0, c_userFrom = 10, c_userTo = 11, c_status = REJECTED,
                                c_lastMessage = Val 1 \<rparr>],
       usersModel = [alice, bob], next_oid = 2, clock = 6, effects = [] \<rparr>"

definition reply :: send_params where
  "reply = \<lparr> sp_userFrom = 11, sp_userTo = 10, sp_username = Val ''Bob'',
             sp_text = Val ''hello'', sp_attachments = Undefined \<rparr>"

definition again :: send_params where
  "again = \<lparr> sp_userFrom = 10, sp_userTo = 11, sp_username = Val ''Alice'',
             sp_text = Val ''are you there?'', sp_attachments = Undefined \<rparr>"

definition env_ok :: env where
  "env_ok = \<lparr> emitEvent = (\<lambda>to event data. None), addNotification = (\<lambda>n. None),
              notify = (\<lambda>tokens title body type. None) \<rparr>"

definition env_socket_down :: env where
  "env_socket_down =
     \<lparr> emitEvent = (\<lambda>to event data. Some (Rejected ''socket unavailable'')),
       addNotification = (\<lambda>n. None), notify = (\<lambda>tokens title body type. None) \<rparr>"

definition png :: upload where
  "png = \<lparr> path = Val ''uploads/1700-cat.png'', filename = Val ''1700-cat.png'',
           mimetype = Val ''image/png'' \<rparr>"

definition no_path :: upload where
  "no_path = \<lparr> path = Undefined, filename = Val ''memory.bin'',
               mimetype = Val ''application/octet-stream'' \<rparr>"

definition p_png :: addMessage_params where
  "p_png = \<lparr> ap_userFrom = Val 10, ap_userTo = Val 11, ap_text = Null,
             ap_attachments = Val [png, no_path], ap_conversation = Val 0 \<rparr>"

definition carol :: user where
  "carol = \<lparr> u_id = 12, u_name = Val ''Carol'', u_image = Null, fcms = [] \<rparr>"

definition bye :: message where
  "bye = \<lparr> m_id = 3, m_userFrom = Val 10, m_userTo = Val 11, m_conversation = Val 0,
           m_text = Val ''bye'', m_attachments = Undefined, m_status = SENT, m_createdAt = 9 \<rparr>"

definition hey :: message where
  "hey = \<lparr> m_id = 5, m_userFrom = Val 12, m_userTo = Val 10, m_conversation = Val 4,
           m_text = Val ''hey'', m_attachments = Undefined, m_status = SENT, m_createdAt = 8 \<rparr>"

text \<open>
  Three users; Alice and Bob have exchanged three messages, Carol has written to Alice,
  and a conversation between Bob and Carol has no last message.
\<close>

definition s_chat :: state where
  "s_chat =
     \<lparr> messagesModel = [hi, hello, bye, hey],
       conversationsModel =
         [\<lparr> c_id = 0, c_userFrom = 10, c_userTo = 11, c_status = ACCEPTED, c_lastMessage = Val 3 \<rparr>,
          \<lparr> c_id = 4, c_userFrom = 12, c_userTo = 10, c_status = PENDING, c_lastMessage = Val 5 \<rparr>,
          \<lparr> c_id = 6, c_userFrom = 11, c_userTo = 12, c_status = PENDING,
             c_lastMessage = Undefined \<rparr>],
       usersModel = [alice, bob, carol], next_oid = 7, clock = 12, effects = [] \<rparr>"

definition first_page :: getMessages_params where
  "first_page = \<lparr> gp_conversation = Val 0, gp_page = Val 1, gp_limit = Val 2,
                  gp_user1 = Undefined, gp_user2 = Undefined \<rparr>"

definition no_address :: getMessages_params where
  "no_address = \<lparr> gp_conversation = Undefined, gp_page = Val 1, gp_limit = Val 2,
                  gp_user1 = Val 10, gp_user2 = Null \<rparr>"

definition unknown_conversation :: getMessages_params where
  "unknown_conversation = \<lparr> gp_conversation = Val 42, gp_page = Undefined, gp_limit = Undefined,
                            gp_user1 = Undefined, gp_user2 = Undefined \<rparr>"

definition for_alice_car :: getConversations_params where
  "for_alice_car = \<lparr> cp_user = Val 10, cp_q = Val '' CAR '', cp_limit = Undefined,
                     cp_page = Val 1 \<rparr>"

definition for_nobody :: getConversations_params where
  "for_nobody = \<lparr> cp_user = Undefined, cp_q = Undefined, cp_limit = Undefined,
                  cp_page = Undefined \<rparr>"

section \<open>Lemmas about the store\<close>

lemma find_delete_by_id:
  "find (\<lambda>m. m_id m = i) ms = Some m \<Longrightarrow>
     m \<in> set ms \<and> m_id m = i \<and> mset (delete_by_id i ms) = mset ms - {#m#}"
  by (induction ms) (auto split: if_splits)

lemma delete_by_id_distinct:
  "distinct (map m_id ms) \<Longrightarrow> i \<notin> m_id ` set (delete_by_id i ms)"
  by (induction ms) auto

lemma find_None_ids: "find (\<lambda>m. m_id m = i) ms = None \<longleftrightarrow> i \<notin> m_id ` set ms"
  by (induction ms) auto

lemma pair_query_sym: "pair_query a b = pair_query b a"
  by (auto simp add: pair_query_def fun_eq_iff)

lemma find_map_replace:
  "find P xs = Some c \<Longrightarrow> P c' \<Longrightarrow>
     find P (map (\<lambda>d. if c_id d = c_id c then c' else d) xs) = Some c'"
  by (induction xs) (auto split: if_splits)

lemma find_by_id:
  "distinct (map c_id xs) \<Longrightarrow> d \<in> set xs \<Longrightarrow> find (\<lambda>x. c_id x = c_id d) xs = Some d"
  by (induction xs) (auto simp add: rev_image_eqI)

lemma find_by_id_replace:
  "distinct (map c_id xs) \<Longrightarrow> d \<in> set xs \<Longrightarrow> c_id c' = i \<Longrightarrow>
     find (\<lambda>x. c_id x = c_id d) (map (\<lambda>x. if c_id x = i then c' else x) xs) =
       Some (if c_id d = i then c' else d)"
  by (induction xs) (auto simp add: rev_image_eqI)

lemma map_replace_absent:
  "\<forall>x \<in> set xs. c_id x \<noteq> i \<Longrightarrow> map (\<lambda>x. if c_id x = i then c' else x) xs = xs"
  by (induction xs) auto

lemma fan_out_store:
  "fan_out env s u m = (r, s') \<Longrightarrow>
     conversationsModel s' = conversationsModel s \<and> messagesModel s' = messagesModel s \<and>
     usersModel s' = usersModel s \<and> next_oid s' = next_oid s \<and> clock s' = clock s"
  by (auto simp add: fan_out_def log_effect_def Let_def split: js.splits option.splits)

lemma addMessage_effect:
  "addMessage s p = (m, s') \<Longrightarrow>
     conversationsModel s' = conversationsModel s \<and> messagesModel s' = messagesModel s @ [m] \<and>
     usersModel s' = usersModel s \<and> next_oid s' = Suc (next_oid s) \<and> m_id m = next_oid s \<and>
     effects s' = effects s"
  by (auto simp add: addMessage_def messages_create_def Let_def)


lemma map_replace_twice:
  "c_id c' = i \<Longrightarrow>
     map (\<lambda>d. if c_id d = i then c'' else d) (map (\<lambda>d. if c_id d = i then c' else d) xs) =
     map (\<lambda>d. if c_id d = i then c'' else d) xs"
  by (induction xs) auto

lemma send_found:
  assumes f: "find (pair_query (sp_userFrom p) (sp_userTo p)) (conversationsModel s) = Some c"
    and nr: "c_status c \<noteq> REJECTED"
    and snd: "send env s p = (r, s')"
  shows "conversationsModel s' =
           map (\<lambda>d. if c_id d = c_id c
                     then c\<lparr> c_status := accept_status (sp_userFrom p) c,
                             c_lastMessage := Val (next_oid s) \<rparr>
                     else d) (conversationsModel s)"
    and "\<exists>m. messagesModel s' = messagesModel s @ [m] \<and> m_id m = next_oid s \<and>
           m_conversation m = Val (c_id c)"
    and "next_oid s' = Suc (next_oid s)"
proof -
  let ?uf = "sp_userFrom p"
  let ?c' = "c\<lparr> c_status := accept_status ?uf c \<rparr>"
  let ?s1 = "if c_status c = PENDING \<and> ?uf = c_userTo c then conversation_save s ?c' else s"
  have res: "resolve s ?uf (sp_userTo p) = (Inr ?c', ?s1)"
    using f nr by (cases "c_status c") (simp_all add: resolve_def accept_status_def Let_def)
  obtain m s2 where am: "addMessage ?s1 \<lparr> ap_userFrom = Val ?uf,
        ap_userTo = Val (sp_userTo p), ap_text = sp_text p,
        ap_attachments = sp_attachments p, ap_conversation = Val (c_id ?c') \<rparr> = (m, s2)"
    by (cases "addMessage ?s1 \<lparr> ap_userFrom = Val ?uf,
        ap_userTo = Val (sp_userTo p), ap_text = sp_text p,
        ap_attachments = sp_attachments p, ap_conversation = Val (c_id ?c') \<rparr>")
  note st = addMessage_effect [OF am]
  have mc: "m_conversation m = Val (c_id c)"
    using am by (auto simp add: addMessage_def messages_create_def Let_def build_messageObj_def)
  have fo: "fan_out env (conversation_save s2 (?c'\<lparr> c_lastMessage := Val (m_id m) \<rparr>))
              (sp_username p) m = (r, s')"
    using snd res am by (simp add: send_def Let_def)
  note fs = fan_out_store [OF fo]
  have n1: "next_oid ?s1 = next_oid s" "messagesModel ?s1 = messagesModel s"
    by (simp_all add: conversation_save_def)
  have c1: "conversationsModel ?s1 =
      (if c_status c = PENDING \<and> ?uf = c_userTo c
       then map (\<lambda>d. if c_id d = c_id c then ?c' else d) (conversationsModel s)
       else conversationsModel s)"
    by (simp add: conversation_save_def)
  show "next_oid s' = Suc (next_oid s)"
    using fs st n1 by (simp add: conversation_save_def)
  show "\<exists>m. messagesModel s' = messagesModel s @ [m] \<and> m_id m = next_oid s \<and>
           m_conversation m = Val (c_id c)"
    using fs st n1 mc by (simp add: conversation_save_def)
  have "conversationsModel s' =
      map (\<lambda>d. if c_id d = c_id c then ?c'\<lparr> c_lastMessage := Val (next_oid s) \<rparr> else d)
        (conversationsModel ?s1)"
    using fs st n1 by (simp add: conversation_save_def)
  also have "\<dots> = map (\<lambda>d. if c_id d = c_id c then ?c'\<lparr> c_lastMessage := Val (next_oid s) \<rparr> else d)
        (conversationsModel s)"
    unfolding c1 using map_replace_twice [of ?c' "c_id c"] by simp
  finally show "conversationsModel s' =
           map (\<lambda>d. if c_id d = c_id c
                     then c\<lparr> c_status := accept_status (sp_userFrom p) c,
                             c_lastMessage := Val (next_oid s) \<rparr>
                     else d) (conversationsModel s)" by simp
qed

lemma send_rejected:
  assumes f: "find (pair_query (sp_userFrom p) (sp_userTo p)) (conversationsModel s) = Some c"
    and nr: "c_status c = REJECTED"
  shows "send env s p = (Inl ConversationBlocked, s)"
  using f nr by (simp add: send_def resolve_def ConversationBlocked_def)

lemma send_created:
  assumes f: "find (pair_query (sp_userFrom p) (sp_userTo p)) (conversationsModel s) = None"
    and snd: "send env s p = (r, s')"
  shows "conversationsModel s' =
           map (\<lambda>d. if c_id d = next_oid s
                     then \<lparr> c_id = next_oid s, c_userFrom = sp_userFrom p, c_userTo = sp_userTo p,
                            c_status = PENDING, c_lastMessage = Val (Suc (next_oid s)) \<rparr>
                     else d) (conversationsModel s) @
           [\<lparr> c_id = next_oid s, c_userFrom = sp_userFrom p, c_userTo = sp_userTo p,
              c_status = PENDING, c_lastMessage = Val (Suc (next_oid s)) \<rparr>]"
    and "\<exists>m. messagesModel s' = messagesModel s @ [m] \<and> m_id m = Suc (next_oid s) \<and>
           m_conversation m = Val (next_oid s)"
    and "next_oid s' = Suc (Suc (next_oid s))"
proof -
  let ?cr = "\<lparr> c_id = next_oid s, c_userFrom = sp_userFrom p, c_userTo = sp_userTo p,
               c_status = PENDING, c_lastMessage = Undefined \<rparr>"
  let ?s1 = "s\<lparr> conversationsModel := conversationsModel s @ [?cr], next_oid := Suc (next_oid s) \<rparr>"
  have res: "resolve s (sp_userFrom p) (sp_userTo p) = (Inr ?cr, ?s1)"
    using f by (simp add: resolve_def conversations_create_def Let_def)
  obtain m s2 where am: "addMessage ?s1 \<lparr> ap_userFrom = Val (sp_userFrom p),
        ap_userTo = Val (sp_userTo p), ap_text = sp_text p,
        ap_attachments = sp_attachments p, ap_conversation = Val (c_id ?cr) \<rparr> = (m, s2)"
    by (cases "addMessage ?s1 \<lparr> ap_userFrom = Val (sp_userFrom p),
        ap_userTo = Val (sp_userTo p), ap_text = sp_text p,
        ap_attachments = sp_attachments p, ap_conversation = Val (c_id ?cr) \<rparr>")
  note st = addMessage_effect [OF am]
  have mc: "m_conversation m = Val (next_oid s)"
    using am by (auto simp add: addMessage_def messages_create_def Let_def build_messageObj_def)
  have fo: "fan_out env (conversation_save s2 (?cr\<lparr> c_lastMessage := Val (m_id m) \<rparr>))
              (sp_username p) m = (r, s')"
    using snd res am by (simp add: send_def Let_def)
  note fs = fan_out_store [OF fo]
  show "next_oid s' = Suc (Suc (next_oid s))"
    using fs st by (simp add: conversation_save_def)
  show "\<exists>m. messagesModel s' = messagesModel s @ [m] \<and> m_id m = Suc (next_oid s) \<and>
           m_conversation m = Val (next_oid s)"
    using fs st mc by (simp add: conversation_save_def)
  show "conversationsModel s' =
           map (\<lambda>d. if c_id d = next_oid s
                     then \<lparr> c_id = next_oid s, c_userFrom = sp_userFrom p, c_userTo = sp_userTo p,
                            c_status = PENDING, c_lastMessage = Val (Suc (next_oid s)) \<rparr>
                     else d) (conversationsModel s) @
           [\<lparr> c_id = next_oid s, c_userFrom = sp_userFrom p, c_userTo = sp_userTo p,
              c_status = PENDING, c_lastMessage = Val (Suc (next_oid s)) \<rparr>]"
    using fs st by (simp add: conversation_save_def)
qed

lemma find_append_Some:
  "find P xs = Some x \<Longrightarrow> find P (xs @ ys) = Some x"
  by (induction xs) (auto split: if_splits)

lemma find_append_None:
  "find P xs = None \<Longrightarrow> find P (xs @ ys) = find P ys"
  by (induction xs) (auto split: if_splits)

lemma map_replace_ids:
  "c_id c' = i \<Longrightarrow> map c_id (map (\<lambda>d. if c_id d = i then c' else d) xs) = map c_id xs"
  by (induction xs) auto

lemma send_status:
  assumes ok: "store_ok s" and d: "d \<in> set (conversationsModel s)"
    and snd: "send env s params = (r, s')"
  shows "store_ok s'"
    and "status_of s' (c_id d) =
       Some (if find (pair_query (sp_userFrom params) (sp_userTo params)) (conversationsModel s) = Some d
             then accept_status (sp_userFrom params) d else c_status d)"
proof -
  let ?P = "pair_query (sp_userFrom params) (sp_userTo params)"
  have dist: "distinct (map c_id (conversationsModel s))"
    and lt: "\<forall>c \<in> set (conversationsModel s). c_id c < next_oid s"
    using ok by (simp_all add: store_ok_def)
  have "store_ok s' \<and> status_of s' (c_id d) =
       Some (if find ?P (conversationsModel s) = Some d
             then accept_status (sp_userFrom params) d else c_status d)"
  proof (cases "find ?P (conversationsModel s)")
    case None
    let ?new = "\<lparr> c_id = next_oid s, c_userFrom = sp_userFrom params, c_userTo = sp_userTo params,
                   c_status = PENDING, c_lastMessage = Val (Suc (next_oid s)) \<rparr>"
    have ne: "\<forall>x \<in> set (conversationsModel s). c_id x \<noteq> next_oid s" using lt by auto
    have cs: "conversationsModel s' = conversationsModel s @ [?new]"
      using send_created(1) [OF None snd] map_replace_absent [OF ne] by simp
    have nx: "next_oid s' = Suc (Suc (next_oid s))" using send_created(3) [OF None snd] .
    have 1: "store_ok s'"
      using dist lt ne unfolding store_ok_def cs nx by (auto simp add: less_Suc_eq)
    have "find (\<lambda>x. c_id x = c_id d) (conversationsModel s @ [?new]) = Some d"
      using find_by_id [OF dist d] by (rule find_append_Some)
    then have 2: "status_of s' (c_id d) = Some (c_status d)"
      unfolding status_of_def cs by simp
    show ?thesis using 1 2 None by simp
  next
    case (Some c)
    show ?thesis
    proof (cases "c_status c = REJECTED")
      case True
      have "s' = s" using send_rejected [OF Some True, of env] snd by simp
      moreover have "status_of s (c_id d) = Some (c_status d)"
        unfolding status_of_def using find_by_id [OF dist d] by simp
      moreover have "d = c \<Longrightarrow> accept_status (sp_userFrom params) d = c_status d"
        using True by (simp add: accept_status_def)
      ultimately show ?thesis using ok Some by auto
    next
      case False
      let ?c' = "c\<lparr> c_status := accept_status (sp_userFrom params) c,
                     c_lastMessage := Val (next_oid s) \<rparr>"
      have cs: "conversationsModel s' =
                  map (\<lambda>x. if c_id x = c_id c then ?c' else x) (conversationsModel s)"
        using send_found(1) [OF Some False snd] .
      have nx: "next_oid s' = Suc (next_oid s)" using send_found(3) [OF Some False snd] .
      have cin: "c \<in> set (conversationsModel s)"
        using Some by (auto simp add: find_Some_iff)
      have ids: "map c_id (conversationsModel s') = map c_id (conversationsModel s)"
        unfolding cs by (rule map_replace_ids) simp
      have "\<forall>x \<in> set (conversationsModel s'). c_id x < Suc (next_oid s)"
      proof
        fix x assume "x \<in> set (conversationsModel s')"
        then have "c_id x \<in> set (map c_id (conversationsModel s'))" by simp
        then have "c_id x \<in> set (map c_id (conversationsModel s))" using ids by simp
        then show "c_id x < Suc (next_oid s)" using lt by (auto simp add: less_Suc_eq)
      qed
      then have 1: "store_ok s'" unfolding store_ok_def nx using ids dist by simp
      have f: "find (\<lambda>x. c_id x = c_id d) (conversationsModel s') =
                 Some (if c_id d = c_id c then ?c' else d)"
        unfolding cs by (rule find_by_id_replace [OF dist d]) simp
      have same: "c_id d = c_id c \<longleftrightarrow> d = c"
        using dist d cin by (auto simp add: distinct_map inj_on_def)
      have 2: "status_of s' (c_id d) =
          Some (if d = c then accept_status (sp_userFrom params) d else c_status d)"
        unfolding status_of_def f using same by auto
      show ?thesis using 1 2 Some by auto
    qed
  qed
  then show "store_ok s'"
    and "status_of s' (c_id d) =
       Some (if find ?P (conversationsModel s) = Some d
             then accept_status (sp_userFrom params) d else c_status d)" by simp_all
qed

lemma push_attachments_map_filter:
  "push_attachments fs =
     map (\<lambda>f. \<lparr> a_path = filename f, a_type = mimetype f \<rparr>) (filter (\<lambda>f. truthy_str (path f)) fs)"
  by (induction fs) simp_all

lemma find_None_map_replace_snoc:
  "find P xs = None \<Longrightarrow> P c' \<Longrightarrow>
     find P (map (\<lambda>d. if c_id d = i then c' else d) xs @ [c']) = Some c'"
  by (induction xs) (auto split: if_splits)

lemma resolve_reuses:
  assumes f: "find (pair_query a b) (conversationsModel s) = Some c"
    and nr: "c_status c \<noteq> REJECTED"
  shows "\<exists>c2 s2. resolve s a b = (Inr c2, s2) \<and> c_id c2 = c_id c \<and>
           length (conversationsModel s2) = length (conversationsModel s)"
  using f nr by (cases "c_status c") (simp_all add: resolve_def Let_def conversation_save_def)

lemma find_Some_set: "find P xs = Some x \<Longrightarrow> x \<in> set xs"
  by (induction xs) (auto split: if_splits)

lemma find_P: "find P xs = Some c \<Longrightarrow> P c"
  by (auto simp add: find_Some_iff)

lemma resolve_then_find:
  assumes r: "resolve s a b = (Inr c1, s1)"
  shows "\<exists>c. find (pair_query a b) (conversationsModel s1) = Some c \<and> c_id c = c_id c1 \<and>
           c_status c \<noteq> REJECTED"
    and "length (conversationsModel s1) \<le> Suc (length (conversationsModel s))"
proof -
  have "(\<exists>c. find (pair_query a b) (conversationsModel s1) = Some c \<and> c_id c = c_id c1 \<and>
           c_status c \<noteq> REJECTED) \<and>
        length (conversationsModel s1) \<le> Suc (length (conversationsModel s))"
  proof (cases "find (pair_query a b) (conversationsModel s)")
    case None
    let ?cr = "\<lparr> c_id = next_oid s, c_userFrom = a, c_userTo = b,
                 c_status = PENDING, c_lastMessage = Undefined \<rparr>"
    have c1: "c1 = ?cr" and s1: "conversationsModel s1 = conversationsModel s @ [?cr]"
      using r None by (auto simp add: resolve_def conversations_create_def Let_def)
    have "find (pair_query a b) (conversationsModel s @ [?cr]) = Some ?cr"
      using find_append_None [OF None, of "[?cr]"] by (simp add: pair_query_def)
    then show ?thesis unfolding s1 c1 by simp
  next
    case (Some c)
    have P: "pair_query a b c" using find_P [OF Some] .
    show ?thesis
    proof (cases "c_status c = PENDING \<and> a = c_userTo c")
      case True
      let ?acc = "c\<lparr> c_status := ACCEPTED \<rparr>"
      have c1: "c1 = ?acc"
        and s1: "conversationsModel s1 =
                   map (\<lambda>d. if c_id d = c_id c then ?acc else d) (conversationsModel s)"
        using r Some True by (auto simp add: resolve_def Let_def conversation_save_def)
      have "pair_query a b ?acc" using P by (simp add: pair_query_def)
      then have "find (pair_query a b)
                   (map (\<lambda>d. if c_id d = c_id c then ?acc else d) (conversationsModel s)) = Some ?acc"
        by (rule find_map_replace [OF Some])
      then show ?thesis unfolding s1 c1 by simp
    next
      case False
      have nr: "c_status c \<noteq> REJECTED"
        using r Some by (auto simp add: resolve_def Let_def split: if_splits)
      have "c1 = c \<and> s1 = s"
        using r Some False nr by (cases "c_status c") (auto simp add: resolve_def Let_def)
      then show ?thesis using Some nr by simp
    qed
  qed
  then show "\<exists>c. find (pair_query a b) (conversationsModel s1) = Some c \<and> c_id c = c_id c1 \<and>
           c_status c \<noteq> REJECTED"
    and "length (conversationsModel s1) \<le> Suc (length (conversationsModel s))" by simp_all
qed

lemma resolve_store:
  "resolve s a b = (r, s1) \<Longrightarrow>
     messagesModel s1 = messagesModel s \<and> usersModel s1 = usersModel s \<and> effects s1 = effects s \<and>
     clock s1 = clock s"
  by (auto simp add: resolve_def conversation_save_def conversations_create_def Let_def
      split: option.splits if_splits)

lemma fan_out_cases:
  assumes to: "m_userTo m = Val to"
  shows "fan_out env s username m =
     (let ev = EmitEvent to (''newMessage_'', m_conversation m) m;
          n = \<lparr> n_user = m_userTo m, n_message = m_id m, n_messenger = m_userFrom m,
                n_type = NEW_MESSAGE \<rparr>
      in case emitEvent env to (''newMessage_'', m_conversation m) m of
           Some e \<Rightarrow> (Inl e, s\<lparr> effects := effects s @ [ev] \<rparr>)
         | None \<Rightarrow>
           (case addNotification env n of
              Some e \<Rightarrow> (Inl e, s\<lparr> effects := effects s @ [ev, AddNotification n] \<rparr>)
            | None \<Rightarrow>
              (case find (\<lambda>u. u_id u = to) (usersModel s) of
                 None \<Rightarrow> (Inl (cannot_read ''null'' ''fcms''),
                           s\<lparr> effects := effects s @ [ev, AddNotification n] \<rparr>)
               | Some u \<Rightarrow>
                 (case notify env (map token (fcms u)) ''New Message'' (body_of username) NEW_MESSAGE of
                    Some e \<Rightarrow> (Inl e, s\<lparr> effects := effects s @ [ev, AddNotification n,
                       Notify (map token (fcms u)) ''New Message'' (body_of username) NEW_MESSAGE] \<rparr>)
                  | None \<Rightarrow> (Inr m, s\<lparr> effects := effects s @ [ev, AddNotification n,
                       Notify (map token (fcms u)) ''New Message'' (body_of username) NEW_MESSAGE] \<rparr>)))))"
  using to by (simp add: fan_out_def log_effect_def Let_def split: option.splits)


lemma find_id_replaced:
  "\<exists>x \<in> set xs. c_id x = i \<Longrightarrow> c_id c' = i \<Longrightarrow>
     find (\<lambda>d. c_id d = i) (map (\<lambda>d. if c_id d = i then c' else d) xs) = Some c'"
  by (induction xs) auto

lemma resolve_stored:
  "resolve s a b = (Inr c, s1) \<Longrightarrow> \<exists>x \<in> set (conversationsModel s1). c_id x = c_id c"
  using resolve_then_find(1) [of s a b c s1] by (auto simp add: find_Some_iff)

lemma send_unfold:
  assumes r: "resolve s (sp_userFrom p) (sp_userTo p) = (Inr c, s1)"
  shows "\<exists>m s3. send env s p = fan_out env s3 (sp_username p) m \<and>
           messagesModel s3 = messagesModel s @ [m] \<and> usersModel s3 = usersModel s \<and>
           effects s3 = effects s \<and>
           m_userFrom m = Val (sp_userFrom p) \<and> m_userTo m = Val (sp_userTo p) \<and>
           m_conversation m = Val (c_id c) \<and>
           find (\<lambda>d. c_id d = c_id c) (conversationsModel s3) =
             Some (c\<lparr> c_lastMessage := Val (m_id m) \<rparr>)"
proof -
  let ?ap = "\<lparr> ap_userFrom = Val (sp_userFrom p), ap_userTo = Val (sp_userTo p),
               ap_text = sp_text p, ap_attachments = sp_attachments p,
               ap_conversation = Val (c_id c) \<rparr>"
  obtain m s2 where am: "addMessage s1 ?ap = (m, s2)" by (cases "addMessage s1 ?ap")
  let ?s3 = "conversation_save s2 (c\<lparr> c_lastMessage := Val (m_id m) \<rparr>)"
  note st = addMessage_effect [OF am] and rs = resolve_store [OF r]
  have 1: "send env s p = fan_out env ?s3 (sp_username p) m"
    using r am by (simp add: send_def Let_def)
  have 2: "m_userFrom m = Val (sp_userFrom p) \<and> m_userTo m = Val (sp_userTo p) \<and>
           m_conversation m = Val (c_id c)"
    using am by (auto simp add: addMessage_def messages_create_def Let_def build_messageObj_def)
  have 3: "messagesModel ?s3 = messagesModel s @ [m] \<and> usersModel ?s3 = usersModel s \<and>
           effects ?s3 = effects s"
    using st rs by (simp add: conversation_save_def)
  have "\<exists>x \<in> set (conversationsModel s2). c_id x = c_id c"
    using resolve_stored [OF r] st by simp
  then have 4: "find (\<lambda>d. c_id d = c_id c) (conversationsModel ?s3) =
             Some (c\<lparr> c_lastMessage := Val (m_id m) \<rparr>)"
    using find_id_replaced [of "conversationsModel s2" "c_id c" "c\<lparr> c_lastMessage := Val (m_id m) \<rparr>"]
    by (simp add: conversation_save_def)
  show ?thesis using 1 2 3 4 by blast
qed

lemma sort_createdAt_desc_sorted:
  "sorted_wrt (\<lambda>a b. m_createdAt b \<le> m_createdAt a) (sort_createdAt_desc ms)"
proof -
  have "sorted (map (\<lambda>m. - int (m_createdAt m)) (sort_createdAt_desc ms))"
    unfolding sort_createdAt_desc_def by (rule sorted_sort_key)
  then show ?thesis by (simp add: sorted_map)
qed

lemma sort_createdAt_desc_mset: "mset (sort_createdAt_desc ms) = mset ms"
  by (simp add: sort_createdAt_desc_def)

lemma sort_createdAt_desc_length: "length (sort_createdAt_desc ms) = length ms"
  by (simp add: sort_createdAt_desc_def)

lemma ceil_divide_ceiling: "int (ceil_divide n l) = \<lceil>real n / real l\<rceil>"
proof -
  have "0 \<le> real n / real l" by simp
  then have "0 \<le> \<lceil>real n / real l\<rceil>" by linarith
  then show ?thesis by (simp add: ceil_divide_def)
qed

lemma facet_props:
  "data (facet k l rows) = take l (drop (k * l) rows)"
  "totalCount (facet k l rows) = length rows"
  "int (totalPages (facet k l rows)) = \<lceil>real (length rows) / real l\<rceil>"
  "success (facet k l rows)"
  by (simp_all add: facet_def ceil_divide_ceiling)

lemma messages_query_page [simp]:
  "messages_query (p\<lparr> gp_page := x \<rparr>) = messages_query p"
  "messages_query (p\<lparr> gp_limit := y \<rparr>) = messages_query p"
  by (simp_all add: messages_query_def split: js.splits)

lemma messages_query_None:
  "messages_query p = None \<longleftrightarrow>
     \<not> truthy_obj (gp_conversation p) \<and> \<not> (truthy_obj (gp_user1 p) \<and> truthy_obj (gp_user2 p))"
  by (cases "gp_conversation p"; cases "gp_user1 p"; cases "gp_user2 p")
     (simp_all add: messages_query_def)

lemma rows_entry:
  "e \<in> set (conversation_rows regex_i s user keyword) \<longleftrightarrow>
     (\<exists>c \<in> set (conversationsModel s). \<exists>m \<in> set (messagesModel s). \<exists>u \<in> set (usersModel s).
        conversations_query user c \<and> Val (m_id m) = c_lastMessage c \<and>
        u_id u = peer_of user c \<and> name_matches regex_i keyword u \<and>
        e = \<lparr> cv_id = c_id c, cv_user = project_user u, cv_lastMessage = project_last m \<rparr>)"
  unfolding conversation_rows_def sort_lastMessage_desc_def lookup_user_def lookup_lastMessage_def
  by (auto simp add: image_iff)

lemma length_filter_unique:
  assumes "distinct (map f xs)" and "\<And>x y. Q x \<Longrightarrow> Q y \<Longrightarrow> f x = f y"
  shows "length (filter Q xs) = (if \<exists>x \<in> set xs. Q x then 1 else 0)"
  using assms(1)
proof (induction xs)
  case Nil
  then show ?case by simp
next
  case (Cons x xs)
  show ?case
  proof (cases "Q x")
    case True
    have "\<forall>y \<in> set xs. \<not> Q y"
    proof
      fix y assume y: "y \<in> set xs"
      show "\<not> Q y"
      proof
        assume "Q y"
        then have "f x = f y" using True assms(2) by blast
        then show False using Cons.prems y by auto
      qed
    qed
    then have "filter Q xs = []" by (simp add: filter_empty_conv)
    then show ?thesis using True by simp
  next
    case False
    then show ?thesis using Cons by simp
  qed
qed

lemma sum_list_sort_key:
  "sum_list (map g (sort_key k xs)) = sum_list (map (g :: 'a \<Rightarrow> nat) xs)"
proof -
  have "mset (map g (sort_key k xs)) = mset (map g xs)" by simp
  then show ?thesis by (metis sum_mset_sum_list)
qed

lemma sum_list_map_concat:
  "sum_list (map g (concat (map h xs))) = sum_list (map (\<lambda>x. sum_list (map (g :: 'a \<Rightarrow> nat) (h x))) xs)"
  by (induction xs) simp_all

lemma sum_list_indicator:
  "sum_list (map (\<lambda>c. if R c then 1 else 0 :: nat) xs) = length (filter R xs)"
  by (induction xs) simp_all

lemma length_rows:
  "length (conversation_rows regex_i s user keyword) =
     sum_list (map (\<lambda>c. length (filter (\<lambda>m. Val (m_id m) = c_lastMessage c) (messagesModel s)) *
                        length (filter (\<lambda>u. u_id u = peer_of user c \<and>
                                   name_matches regex_i keyword u) (usersModel s)))
       (filter (conversations_query user) (conversationsModel s)))"
proof -
  let ?g = "\<lambda>j. length (lookup_user regex_i keyword user (usersModel s) j)"
  let ?h = "lookup_lastMessage (messagesModel s)"
  let ?cs = "filter (conversations_query user) (conversationsModel s)"
  have "length (conversation_rows regex_i s user keyword) =
          sum_list (map ?g (sort_lastMessage_desc (concat (map ?h ?cs))))"
    by (simp add: conversation_rows_def length_concat comp_def)
  also have "\<dots> = sum_list (map ?g (concat (map ?h ?cs)))"
    unfolding sort_lastMessage_desc_def by (rule sum_list_sort_key)
  also have "\<dots> = sum_list (map (\<lambda>c. sum_list (map ?g (?h c))) ?cs)"
    by (rule sum_list_map_concat)
  also have "\<dots> = sum_list (map (\<lambda>c.
       length (filter (\<lambda>m. Val (m_id m) = c_lastMessage c) (messagesModel s)) *
       length (filter (\<lambda>u. u_id u = peer_of user c \<and> name_matches regex_i keyword u)
                 (usersModel s))) ?cs)"
    by (simp add: lookup_lastMessage_def lookup_user_def comp_def sum_list_triv)
  finally show ?thesis .
qed

lemma length_rows_listed:
  assumes dm: "distinct (map m_id (messagesModel s))" and du: "distinct (map u_id (usersModel s))"
  shows "length (conversation_rows regex_i s user keyword) =
           length (filter (listed regex_i s user keyword) (conversationsModel s))"
proof -
  have m: "length (filter (\<lambda>m. Val (m_id m) = c_lastMessage c) (messagesModel s)) =
             (if \<exists>m \<in> set (messagesModel s). Val (m_id m) = c_lastMessage c then 1 else 0)" for c
    by (rule length_filter_unique [OF dm]) (metis js.inject)
  have u: "length (filter (\<lambda>u. u_id u = peer_of user c \<and> name_matches regex_i keyword u)
                 (usersModel s)) =
             (if \<exists>u \<in> set (usersModel s). u_id u = peer_of user c \<and> name_matches regex_i keyword u
              then 1 else 0)" for c
    by (rule length_filter_unique [OF du]) simp
  have ind: "(if A then 1 else 0) * (if B then 1 else 0) = (if A \<and> B then 1 else 0 :: nat)"
    for A B by simp
  have "length (conversation_rows regex_i s user keyword) =
      sum_list (map (\<lambda>c. if (\<exists>m \<in> set (messagesModel s). Val (m_id m) = c_lastMessage c) \<and>
           (\<exists>u \<in> set (usersModel s). u_id u = peer_of user c \<and> name_matches regex_i keyword u)
           then 1 else 0)
       (filter (conversations_query user) (conversationsModel s)))"
    unfolding length_rows m u ind by (rule refl)
  also have "\<dots> = length (filter (listed regex_i s user keyword) (conversationsModel s))"
    unfolding sum_list_indicator listed_def by (simp add: conj_commute)
  finally show ?thesis .
qed

lemma getConversations_rows:
  "getConversations regex_i s p =
     Inr (facet (page_of (cp_page p)) (limit_of (cp_limit p))
            (conversation_rows regex_i s (cp_user p) (keyword_of (cp_q p))))"
  by (simp add: getConversations_def Let_def)

lemma in_data_facet: "e \<in> set (data (facet k l rows)) \<Longrightarrow> e \<in> set rows"
  by (auto simp add: facet_def split: if_splits dest: in_set_takeD in_set_dropD)

lemma resolve_result:
  assumes r: "resolve s a b = (Inr c1, s1)"
  shows "(find (pair_query a b) (conversationsModel s) = None \<and>
            c1 = \<lparr> c_id = next_oid s, c_userFrom = a, c_userTo = b, c_status = PENDING,
                   c_lastMessage = Undefined \<rparr> \<and>
            conversationsModel s1 = conversationsModel s @ [c1] \<and> next_oid s1 = Suc (next_oid s)) \<or>
         (\<exists>c. find (pair_query a b) (conversationsModel s) = Some c \<and> c_status c \<noteq> REJECTED \<and>
            c1 = c\<lparr> c_status := accept_status a c \<rparr> \<and>
            map c_id (conversationsModel s1) = map c_id (conversationsModel s) \<and>
            next_oid s1 = next_oid s)"
proof (cases "find (pair_query a b) (conversationsModel s)")
  case None
  then show ?thesis
    using r by (auto simp add: resolve_def conversations_create_def Let_def)
next
  case (Some c)
  have nr: "c_status c \<noteq> REJECTED"
    using r Some by (auto simp add: resolve_def Let_def split: if_splits)
  have ids: "map c_id (map (\<lambda>d. if c_id d = c_id c then c\<lparr> c_status := ACCEPTED \<rparr> else d)
               (conversationsModel s)) = map c_id (conversationsModel s)"
    by (rule map_replace_ids) simp
  have "c1 = c\<lparr> c_status := accept_status a c \<rparr> \<and>
        map c_id (conversationsModel s1) = map c_id (conversationsModel s) \<and>
        next_oid s1 = next_oid s"
    using r Some nr ids
    by (cases "c_status c")
       (auto simp add: resolve_def Let_def accept_status_def conversation_save_def split: if_splits)
  then show ?thesis using Some nr by simp
qed

lemma resolve_finds_stored:
  assumes r: "resolve s a b = (Inr c1, s1)"
  shows "find (pair_query a b) (conversationsModel s1) = Some c1"
proof (cases "find (pair_query a b) (conversationsModel s)")
  case None
  let ?cr = "\<lparr> c_id = next_oid s, c_userFrom = a, c_userTo = b,
               c_status = PENDING, c_lastMessage = Undefined \<rparr>"
  have c1: "c1 = ?cr" and s1: "conversationsModel s1 = conversationsModel s @ [?cr]"
    using r None by (auto simp add: resolve_def conversations_create_def Let_def)
  have "find (pair_query a b) (conversationsModel s @ [?cr]) = Some ?cr"
    using find_append_None [OF None, of "[?cr]"] by (simp add: pair_query_def)
  then show ?thesis unfolding s1 c1 .
next
  case (Some c)
  have P: "pair_query a b c" using find_P [OF Some] .
  show ?thesis
  proof (cases "c_status c = PENDING \<and> a = c_userTo c")
    case True
    let ?acc = "c\<lparr> c_status := ACCEPTED \<rparr>"
    have c1: "c1 = ?acc"
      and s1: "conversationsModel s1 =
                 map (\<lambda>d. if c_id d = c_id c then ?acc else d) (conversationsModel s)"
      using r Some True by (auto simp add: resolve_def Let_def conversation_save_def)
    have "pair_query a b ?acc" using P by (simp add: pair_query_def)
    then have "find (pair_query a b)
                 (map (\<lambda>d. if c_id d = c_id c then ?acc else d) (conversationsModel s)) = Some ?acc"
      by (rule find_map_replace [OF Some])
    then show ?thesis unfolding s1 c1 .
  next
    case False
    have nr: "c_status c \<noteq> REJECTED"
      using r Some by (auto simp add: resolve_def Let_def split: if_splits)
    have "c1 = c \<and> s1 = s"
      using r Some False nr by (cases "c_status c") (auto simp add: resolve_def Let_def)
    then show ?thesis using Some by simp
  qed
qed

lemma resolve_not_rejected:
  "resolve s a b = (Inr c1, s1) \<Longrightarrow> c_status c1 \<noteq> REJECTED"
  using resolve_result [of s a b c1 s1] by (auto simp add: accept_status_def split: if_splits)

lemma resolve_again:
  assumes f: "find (pair_query a b) (conversationsModel s) = Some c"
    and nr: "c_status c \<noteq> REJECTED"
  shows "\<exists>s2. resolve s a b = (Inr (c\<lparr> c_status := accept_status a c \<rparr>), s2) \<and>
           find (pair_query a b) (conversationsModel s2) = Some (c\<lparr> c_status := accept_status a c \<rparr>) \<and>
           map c_id (conversationsModel s2) = map c_id (conversationsModel s)"
proof -
  obtain c2 s2 where r: "resolve s a b = (Inr c2, s2)"
    using resolve_reuses [OF f nr] by blast
  have "c2 = c\<lparr> c_status := accept_status a c \<rparr> \<and>
        map c_id (conversationsModel s2) = map c_id (conversationsModel s)"
    using resolve_result [OF r] f by auto
  then show ?thesis using r resolve_finds_stored [OF r] by simp
qed

lemma send_finds_stored:
  assumes r: "resolve s (sp_userFrom p) (sp_userTo p) = (Inr c1, s1)"
    and snd: "send env s p = (r', s')"
  shows "find (pair_query (sp_userFrom p) (sp_userTo p)) (conversationsModel s') =
           Some (c1\<lparr> c_lastMessage := Val (next_oid s1) \<rparr>)"
proof (cases "find (pair_query (sp_userFrom p) (sp_userTo p)) (conversationsModel s)")
  case None
  let ?new = "\<lparr> c_id = next_oid s, c_userFrom = sp_userFrom p, c_userTo = sp_userTo p,
                 c_status = PENDING, c_lastMessage = Val (Suc (next_oid s)) \<rparr>"
  have c1: "c1\<lparr> c_lastMessage := Val (next_oid s1) \<rparr> = ?new"
    using resolve_result [OF r] None by auto
  have "pair_query (sp_userFrom p) (sp_userTo p) ?new" by (simp add: pair_query_def)
  then have "find (pair_query (sp_userFrom p) (sp_userTo p)) (conversationsModel s') = Some ?new"
    unfolding send_created(1) [OF None snd] by (rule find_None_map_replace_snoc [OF None])
  then show ?thesis unfolding c1 .
next
  case (Some c)
  have nr: "c_status c \<noteq> REJECTED"
    using r Some by (auto simp add: resolve_def Let_def split: if_splits)
  let ?c' = "c\<lparr> c_status := accept_status (sp_userFrom p) c, c_lastMessage := Val (next_oid s) \<rparr>"
  have c1: "c1\<lparr> c_lastMessage := Val (next_oid s1) \<rparr> = ?c'"
    using resolve_result [OF r] Some by auto
  have "pair_query (sp_userFrom p) (sp_userTo p) ?c'"
    using find_P [OF Some] by (simp add: pair_query_def)
  then have "find (pair_query (sp_userFrom p) (sp_userTo p)) (conversationsModel s') = Some ?c'"
    unfolding send_found(1) [OF Some nr snd] by (rule find_map_replace [OF Some])
  then show ?thesis unfolding c1 .
qed

section \<open>Claims about send\<close>

text \<open>
  C1. Whenever the conversation that \<open>send\<close> resolves for the pair (the query matches
  both orderings of the pair) has status REJECTED, \<open>send\<close> fails with
  ConversationBlocked and the whole state is the one before the call: no message is
  created, the conversation keeps its status and its lastMessage, and nothing is handed
  to a collaborator. The same holds with the pair given in the opposite order.
\<close>

theorem send_rejected_blocked:
  "find (pair_query (sp_userFrom params) (sp_userTo params)) (conversationsModel s) = Some c \<Longrightarrow>
   c_status c = REJECTED \<Longrightarrow>
     send env s params = (Inl ConversationBlocked, s) \<and>
     send env s (params\<lparr> sp_userFrom := sp_userTo params, sp_userTo := sp_userFrom params \<rparr>) =
       (Inl ConversationBlocked, s)"
proof -
  assume f: "find (pair_query (sp_userFrom params) (sp_userTo params)) (conversationsModel s) = Some c"
    and r: "c_status c = REJECTED"
  let ?q = "params\<lparr> sp_userFrom := sp_userTo params, sp_userTo := sp_userFrom params \<rparr>"
  have "find (pair_query (sp_userFrom ?q) (sp_userTo ?q)) (conversationsModel s) = Some c"
    using f pair_query_sym [of "sp_userFrom params" "sp_userTo params"] by simp
  then show ?thesis using send_rejected [OF f r] send_rejected [OF _ r] by blast
qed

theorem send_rejected_blocked_witness:
  "find (pair_query (sp_userFrom reply) (sp_userTo reply)) (conversationsModel s_rejected) =
     Some \<lparr> c_id = 0, c_userFrom = 10, c_userTo = 11, c_status = REJECTED, c_lastMessage = Val 1 \<rparr> \<and>
   send env_ok s_rejected reply = (Inl ConversationBlocked, s_rejected) \<and>
   send env_ok s_rejected again = (Inl ConversationBlocked, s_rejected)"
proof -
  have f: "find (pair_query (sp_userFrom reply) (sp_userTo reply)) (conversationsModel s_rejected) =
     Some \<lparr> c_id = 0, c_userFrom = 10, c_userTo = 11, c_status = REJECTED, c_lastMessage = Val 1 \<rparr>"
    by (simp add: reply_def s_rejected_def pair_query_def)
  have g: "find (pair_query (sp_userFrom again) (sp_userTo again)) (conversationsModel s_rejected) =
     Some \<lparr> c_id = 0, c_userFrom = 10, c_userTo = 11, c_status = REJECTED, c_lastMessage = Val 1 \<rparr>"
    by (simp add: again_def s_rejected_def pair_query_def)
  show ?thesis
    using f send_rejected_blocked [OF f, of env_ok] send_rejected_blocked [OF g, of env_ok] by simp
qed

text \<open>
  C2. In a store with unique conversation ids, let \<open>d\<close> be any stored conversation and
  let any \<open>send\<close> run. If \<open>d\<close> is PENDING, its stored status afterwards is ACCEPTED
  exactly when \<open>d\<close> is the conversation the send resolved and the sender is the stored
  \<open>userTo\<close> of \<open>d\<close>; in every other case (a send by the initiator, who in a
  conversation of two users is not the stored \<open>userTo\<close>, or a send between other
  users) it is still PENDING. If \<open>d\<close> is ACCEPTED it stays ACCEPTED, so the transition
  happens once. The store stays well-formed, and no other operation of the controller
  writes to the conversations.
\<close>

theorem pending_accepted_by_reply_only:
  "store_ok s \<Longrightarrow> d \<in> set (conversationsModel s) \<Longrightarrow> send env s params = (r, s') \<Longrightarrow>
     store_ok s' \<and>
     (c_status d = PENDING \<longrightarrow>
        status_of s' (c_id d) =
          Some (if find (pair_query (sp_userFrom params) (sp_userTo params)) (conversationsModel s)
                     = Some d \<and> sp_userFrom params = c_userTo d
                then ACCEPTED else PENDING)) \<and>
     (c_status d = PENDING \<and> sp_userFrom params = c_userFrom d \<and> c_userFrom d \<noteq> c_userTo d \<longrightarrow>
        status_of s' (c_id d) = Some PENDING) \<and>
     (c_status d = ACCEPTED \<longrightarrow> status_of s' (c_id d) = Some ACCEPTED) \<and>
     conversationsModel (snd (addMessage s ap)) = conversationsModel s \<and>
     conversationsModel (snd (updateMessage s up)) = conversationsModel s \<and>
     conversationsModel (snd (deleteMessage s message)) = conversationsModel s \<and>
     conversationsModel (snd (readMessages s rp)) = conversationsModel s"
proof -
  assume ok: "store_ok s" and d: "d \<in> set (conversationsModel s)"
    and snd: "send env s params = (r, s')"
  note st = send_status [OF ok d snd]
  have 1: "c_status d = PENDING \<longrightarrow>
        status_of s' (c_id d) =
          Some (if find (pair_query (sp_userFrom params) (sp_userTo params)) (conversationsModel s)
                     = Some d \<and> sp_userFrom params = c_userTo d
                then ACCEPTED else PENDING)"
    using st(2) by (auto simp add: accept_status_def)
  have 2: "c_status d = ACCEPTED \<longrightarrow> status_of s' (c_id d) = Some ACCEPTED"
    using st(2) by (simp add: accept_status_def)
  have 7: "c_status d = PENDING \<and> sp_userFrom params = c_userFrom d \<and> c_userFrom d \<noteq> c_userTo d \<longrightarrow>
        status_of s' (c_id d) = Some PENDING"
    using st(2) by (auto simp add: accept_status_def)
  have 3: "conversationsModel (snd (addMessage s ap)) = conversationsModel s"
    by (simp add: addMessage_def messages_create_def Let_def)
  have 4: "conversationsModel (snd (updateMessage s up)) = conversationsModel s"
    by (simp add: updateMessage_def split: js.splits option.splits)
  have 5: "conversationsModel (snd (deleteMessage s message)) = conversationsModel s"
    by (simp add: deleteMessage_def split: js.splits option.splits)
  have 6: "conversationsModel (snd (readMessages s rp)) = conversationsModel s"
    by (simp add: readMessages_def split: js.splits)
  show ?thesis using st(1) 1 2 3 4 5 6 7 by blast
qed

theorem pending_accepted_by_reply_only_witness:
  "store_ok s_pending \<and>
   conversationsModel s_pending =
     [\<lparr> c_id = 0, c_userFrom = 10, c_userTo = 11, c_status = PENDING, c_lastMessage = Val 1 \<rparr>] \<and>
   status_of (snd (send env_ok s_pending reply)) 0 = Some ACCEPTED \<and>
   status_of (snd (send env_ok s_pending again)) 0 = Some PENDING \<and>
   status_of (snd (send env_ok (snd (send env_ok s_pending reply)) again)) 0 = Some ACCEPTED"
proof -
  let ?d = "\<lparr> c_id = 0, c_userFrom = 10, c_userTo = 11, c_status = PENDING, c_lastMessage = Val 1 \<rparr>"
  let ?s1 = "snd (send env_ok s_pending reply)"
  have ok: "store_ok s_pending" by (simp add: store_ok_def s_pending_def)
  have cs: "conversationsModel s_pending = [?d]" by (simp add: s_pending_def)
  have d: "?d \<in> set (conversationsModel s_pending)" unfolding cs by simp
  have g: "send env_ok s p = (fst (send env_ok s p), snd (send env_ok s p))" for s p by simp
  have f1: "find (pair_query (sp_userFrom reply) (sp_userTo reply)) (conversationsModel s_pending)
              = Some ?d"
    and f2: "find (pair_query (sp_userFrom again) (sp_userTo again)) (conversationsModel s_pending)
              = Some ?d"
    unfolding cs by (simp_all add: reply_def again_def pair_query_def)
  have 1: "status_of ?s1 0 = Some ACCEPTED" and ok1: "store_ok ?s1"
    using pending_accepted_by_reply_only [OF ok d g [of s_pending reply]] f1
    by (simp_all add: reply_def)
  have 2: "status_of (snd (send env_ok s_pending again)) 0 = Some PENDING"
    using pending_accepted_by_reply_only [OF ok d g [of s_pending again]] f2
    by (simp add: again_def)
  obtain d1 where d1: "d1 \<in> set (conversationsModel ?s1)" "c_id d1 = 0" "c_status d1 = ACCEPTED"
    using 1 find_Some_set [of "\<lambda>c. c_id c = 0" "conversationsModel ?s1"]
      find_P [of "\<lambda>c. c_id c = 0" "conversationsModel ?s1"]
    by (auto simp add: status_of_def)
  have 3: "status_of (snd (send env_ok ?s1 again)) 0 = Some ACCEPTED"
    using pending_accepted_by_reply_only [OF ok1 d1(1) g [of ?s1 again]] d1(2,3) by simp
  show ?thesis using ok cs 1 2 3 by simp
qed

text \<open>
  C3. Whenever the resolution at the head of \<open>send\<close> succeeds for a pair with the
  conversation \<open>c1\<close>: if the store had no conversation matching the pair (in either
  order), exactly one was appended, \<open>c1\<close>, PENDING from the sender to the receiver; if
  it had one, \<open>c1\<close> is that stored conversation (accepted when the receiver replies)
  and the stored ids are the same as before. In both cases \<open>c1\<close> is afterwards the
  stored conversation that the pair query finds, and resolving again, for the same pair
  and for the pair in the opposite order, finds and returns this stored conversation (same
  id, same users), leaves it as the one the query finds, and leaves the stored ids as they
  are. The same holds after the rest of that \<open>send\<close> (message write, lastMessage
  update and fan-out, whatever its outcome), where the stored conversation carries the new
  lastMessage. The query is symmetric in the two users.
\<close>

theorem resolve_twice_same_id:
  "resolve s (sp_userFrom p) (sp_userTo p) = (Inr c1, s1) \<Longrightarrow> send env s p = (r, s') \<Longrightarrow>
     (find (pair_query (sp_userFrom p) (sp_userTo p)) (conversationsModel s) = None \<longrightarrow>
        conversationsModel s1 = conversationsModel s @ [c1] \<and> c_id c1 = next_oid s \<and>
        c_userFrom c1 = sp_userFrom p \<and> c_userTo c1 = sp_userTo p \<and> c_status c1 = PENDING) \<and>
     (\<forall>c. find (pair_query (sp_userFrom p) (sp_userTo p)) (conversationsModel s) = Some c \<longrightarrow>
        c1 = c\<lparr> c_status := accept_status (sp_userFrom p) c \<rparr> \<and>
        map c_id (conversationsModel s1) = map c_id (conversationsModel s)) \<and>
     find (pair_query (sp_userFrom p) (sp_userTo p)) (conversationsModel s1) = Some c1 \<and>
     (\<exists>c2 s2. resolve s1 (sp_userFrom p) (sp_userTo p) = (Inr c2, s2) \<and>
        c2 = c1\<lparr> c_status := accept_status (sp_userFrom p) c1 \<rparr> \<and>
        find (pair_query (sp_userFrom p) (sp_userTo p)) (conversationsModel s2) = Some c2 \<and>
        map c_id (conversationsModel s2) = map c_id (conversationsModel s1)) \<and>
     (\<exists>c2 s2. resolve s1 (sp_userTo p) (sp_userFrom p) = (Inr c2, s2) \<and>
        c2 = c1\<lparr> c_status := accept_status (sp_userTo p) c1 \<rparr> \<and>
        find (pair_query (sp_userTo p) (sp_userFrom p)) (conversationsModel s2) = Some c2 \<and>
        map c_id (conversationsModel s2) = map c_id (conversationsModel s1)) \<and>
     find (pair_query (sp_userFrom p) (sp_userTo p)) (conversationsModel s') =
       Some (c1\<lparr> c_lastMessage := Val (next_oid s1) \<rparr>) \<and>
     (\<exists>c2 s2. resolve s' (sp_userFrom p) (sp_userTo p) = (Inr c2, s2) \<and>
        c2 = c1\<lparr> c_status := accept_status (sp_userFrom p) c1, c_lastMessage := Val (next_oid s1) \<rparr> \<and>
        find (pair_query (sp_userFrom p) (sp_userTo p)) (conversationsModel s2) = Some c2 \<and>
        map c_id (conversationsModel s2) = map c_id (conversationsModel s')) \<and>
     (\<exists>c2 s2. resolve s' (sp_userTo p) (sp_userFrom p) = (Inr c2, s2) \<and>
        c2 = c1\<lparr> c_status := accept_status (sp_userTo p) c1, c_lastMessage := Val (next_oid s1) \<rparr> \<and>
        find (pair_query (sp_userTo p) (sp_userFrom p)) (conversationsModel s2) = Some c2 \<and>
        map c_id (conversationsModel s2) = map c_id (conversationsModel s')) \<and>
     pair_query (sp_userFrom p) (sp_userTo p) = pair_query (sp_userTo p) (sp_userFrom p)"
proof -
  assume r: "resolve s (sp_userFrom p) (sp_userTo p) = (Inr c1, s1)"
    and snd: "send env s p = (r, s')"
  let ?a = "sp_userFrom p" and ?b = "sp_userTo p"
  let ?d = "c1\<lparr> c_lastMessage := Val (next_oid s1) \<rparr>"
  note sym = pair_query_sym [of ?a ?b]
  note res = resolve_result [OF r]
  have nr: "c_status c1 \<noteq> REJECTED" using r by (rule resolve_not_rejected)
  have nrd: "c_status ?d \<noteq> REJECTED" using nr by simp
  have f1: "find (pair_query ?a ?b) (conversationsModel s1) = Some c1"
    using r by (rule resolve_finds_stored)
  have f1': "find (pair_query ?b ?a) (conversationsModel s1) = Some c1" using f1 sym by simp
  have fd: "find (pair_query ?a ?b) (conversationsModel s') = Some ?d"
    using r snd by (rule send_finds_stored)
  have fd': "find (pair_query ?b ?a) (conversationsModel s') = Some ?d" using fd sym by simp
  have 1: "find (pair_query ?a ?b) (conversationsModel s) = None \<longrightarrow>
        conversationsModel s1 = conversationsModel s @ [c1] \<and> c_id c1 = next_oid s \<and>
        c_userFrom c1 = ?a \<and> c_userTo c1 = ?b \<and> c_status c1 = PENDING"
    using res by auto
  have 2: "\<forall>c. find (pair_query ?a ?b) (conversationsModel s) = Some c \<longrightarrow>
        c1 = c\<lparr> c_status := accept_status ?a c \<rparr> \<and>
        map c_id (conversationsModel s1) = map c_id (conversationsModel s)"
    using res by auto
  have 3: "\<exists>c2 s2. resolve s1 ?a ?b = (Inr c2, s2) \<and>
        c2 = c1\<lparr> c_status := accept_status ?a c1 \<rparr> \<and>
        find (pair_query ?a ?b) (conversationsModel s2) = Some c2 \<and>
        map c_id (conversationsModel s2) = map c_id (conversationsModel s1)"
    using resolve_again [OF f1 nr] by blast
  have 4: "\<exists>c2 s2. resolve s1 ?b ?a = (Inr c2, s2) \<and>
        c2 = c1\<lparr> c_status := accept_status ?b c1 \<rparr> \<and>
        find (pair_query ?b ?a) (conversationsModel s2) = Some c2 \<and>
        map c_id (conversationsModel s2) = map c_id (conversationsModel s1)"
    using resolve_again [OF f1' nr] by blast
  have ad: "?d\<lparr> c_status := accept_status u ?d \<rparr> =
              c1\<lparr> c_status := accept_status u c1, c_lastMessage := Val (next_oid s1) \<rparr>" for u
    by (simp add: accept_status_def)
  have 5: "\<exists>c2 s2. resolve s' ?a ?b = (Inr c2, s2) \<and>
        c2 = c1\<lparr> c_status := accept_status ?a c1, c_lastMessage := Val (next_oid s1) \<rparr> \<and>
        find (pair_query ?a ?b) (conversationsModel s2) = Some c2 \<and>
        map c_id (conversationsModel s2) = map c_id (conversationsModel s')"
    using resolve_again [OF fd nrd] unfolding ad by blast
  have 6: "\<exists>c2 s2. resolve s' ?b ?a = (Inr c2, s2) \<and>
        c2 = c1\<lparr> c_status := accept_status ?b c1, c_lastMessage := Val (next_oid s1) \<rparr> \<and>
        find (pair_query ?b ?a) (conversationsModel s2) = Some c2 \<and>
        map c_id (conversationsModel s2) = map c_id (conversationsModel s')"
    using resolve_again [OF fd' nrd] unfolding ad by blast
  show ?thesis
    by (intro conjI 1 2 f1 3 4 fd 5 6 sym)
qed

theorem resolve_twice_same_id_witness:
  "resolve s_empty (sp_userFrom again) (sp_userTo again) =
     (Inr \<lparr> c_id = 0, c_userFrom = 10, c_userTo = 11, c_status = PENDING, c_lastMessage = Undefined \<rparr>,
      snd (resolve s_empty (sp_userFrom again) (sp_userTo again))) \<and>
   find (pair_query (sp_userFrom again) (sp_userTo again)) (conversationsModel s_empty) = None \<and>
   conversationsModel (snd (resolve s_empty (sp_userFrom again) (sp_userTo again))) =
     [\<lparr> c_id = 0, c_userFrom = 10, c_userTo = 11, c_status = PENDING, c_lastMessage = Undefined \<rparr>] \<and>
   (\<exists>s2. resolve (snd (resolve s_empty (sp_userFrom again) (sp_userTo again)))
               (sp_userFrom again) (sp_userTo again) =
            (Inr \<lparr> c_id = 0, c_userFrom = 10, c_userTo = 11, c_status = PENDING,
                   c_lastMessage = Undefined \<rparr>, s2) \<and>
          map c_id (conversationsModel s2) = [0]) \<and>
   (\<exists>s2. resolve (snd (send env_ok s_empty again)) (sp_userTo again) (sp_userFrom again) =
            (Inr \<lparr> c_id = 0, c_userFrom = 10, c_userTo = 11, c_status = ACCEPTED,
                   c_lastMessage = Val 1 \<rparr>, s2))"
proof -
  let ?c1 = "\<lparr> c_id = 0, c_userFrom = 10, c_userTo = 11, c_status = PENDING,
               c_lastMessage = Undefined \<rparr>"
  let ?s1 = "snd (resolve s_empty (sp_userFrom again) (sp_userTo again))"
  have h: "resolve s_empty (sp_userFrom again) (sp_userTo again) = (Inr ?c1, ?s1)"
    by (simp add: resolve_def s_empty_def again_def conversations_create_def Let_def)
  have g: "send env_ok s_empty again =
     (fst (send env_ok s_empty again), snd (send env_ok s_empty again))" by simp
  have n: "find (pair_query (sp_userFrom again) (sp_userTo again)) (conversationsModel s_empty) = None"
    by (simp add: s_empty_def)
  have ab: "sp_userFrom again = 10" "sp_userTo again = 11" by (simp_all add: again_def)
  have acc: "accept_status 10 ?c1 = PENDING" "accept_status 11 ?c1 = ACCEPTED"
    by (simp_all add: accept_status_def)
  note inst = resolve_twice_same_id [OF h g]
  have 1: "conversationsModel ?s1 = conversationsModel s_empty @ [?c1]"
    using inst n by blast
  have nx: "next_oid ?s1 = 1"
    by (simp add: resolve_def s_empty_def again_def conversations_create_def Let_def)
  have 2: "\<exists>c2 s2. resolve ?s1 (sp_userFrom again) (sp_userTo again) = (Inr c2, s2) \<and>
        c2 = ?c1\<lparr> c_status := accept_status (sp_userFrom again) ?c1 \<rparr> \<and>
        find (pair_query (sp_userFrom again) (sp_userTo again)) (conversationsModel s2) = Some c2 \<and>
        map c_id (conversationsModel s2) = map c_id (conversationsModel ?s1)"
    using inst by (elim conjE) assumption
  have 3: "\<exists>c2 s2. resolve (snd (send env_ok s_empty again)) (sp_userTo again) (sp_userFrom again) =
              (Inr c2, s2) \<and>
        c2 = ?c1\<lparr> c_status := accept_status (sp_userTo again) ?c1,
                  c_lastMessage := Val (next_oid ?s1) \<rparr> \<and>
        find (pair_query (sp_userTo again) (sp_userFrom again)) (conversationsModel s2) = Some c2 \<and>
        map c_id (conversationsModel s2) = map c_id (conversationsModel (snd (send env_ok s_empty again)))"
    using inst by (elim conjE) assumption
  have a1: "conversationsModel ?s1 = [?c1]" using 1 by (simp add: s_empty_def)
  have a2: "\<exists>s2. resolve ?s1 (sp_userFrom again) (sp_userTo again) = (Inr ?c1, s2) \<and>
          map c_id (conversationsModel s2) = [0]"
    using 2 a1 unfolding ab acc by auto
  have a3: "\<exists>s2. resolve (snd (send env_ok s_empty again)) (sp_userTo again) (sp_userFrom again) =
            (Inr \<lparr> c_id = 0, c_userFrom = 10, c_userTo = 11, c_status = ACCEPTED,
                   c_lastMessage = Val 1 \<rparr>, s2)"
    using 3 nx unfolding ab acc by auto
  show ?thesis using h n a1 a2 a3 by blast
qed

text \<open>
  C4, as the claim states it, fails: with a socket collaborator that rejects, \<open>send\<close>
  fails with that rejection although the message is stored, and neither the notification
  record nor the push notification is attempted.
\<close>

theorem fan_out_failure_counterexample:
  "fst (send env_socket_down s_pending reply) = Inl (Rejected ''socket unavailable'') \<and>
   effects (snd (send env_socket_down s_pending reply)) =
     [EmitEvent 10 (''newMessage_'', Val 0) hello] \<and>
   messagesModel (snd (send env_socket_down s_pending reply)) = [hi, hello]"
  by (simp add: send_def resolve_def reply_def s_pending_def pair_query_def conversation_save_def
     addMessage_def messages_create_def build_messageObj_def Let_def fan_out_def
     env_socket_down_def log_effect_def hello_def)

text \<open>
  C4, amended. Once the conversation is resolved, \<open>send\<close> stores the message and points
  lastMessage at it, and then awaits the three channel actions one after the other with
  no failure isolation: the socket event is always attempted first; a rejection by the
  socket event, by the notification record or by the push notification is the failure of
  \<open>send\<close>, and the actions after the one that rejected are not attempted; when none of
  the three rejects, \<open>send\<close> returns the stored message. The stored message stays in
  every case. (The push needs the user record of the receiver; the statements about the
  push are for a receiver that has one.)
\<close>

theorem fan_out_sequential:
  "resolve s (sp_userFrom p) (sp_userTo p) = (Inr c, s1) \<Longrightarrow> send env s p = (r, s') \<Longrightarrow>
   \<exists>m. messagesModel s' = messagesModel s @ [m] \<and>
       find (\<lambda>d. c_id d = c_id c) (conversationsModel s') = Some (c\<lparr> c_lastMessage := Val (m_id m) \<rparr>) \<and>
       (let ev = EmitEvent (sp_userTo p) (''newMessage_'', Val (c_id c)) m;
            n = \<lparr> n_user = Val (sp_userTo p), n_message = m_id m,
                  n_messenger = Val (sp_userFrom p), n_type = NEW_MESSAGE \<rparr>;
            emitted = emitEvent env (sp_userTo p) (''newMessage_'', Val (c_id c)) m;
            recorded = addNotification env n;
            receiver = find (\<lambda>u. u_id u = sp_userTo p) (usersModel s);
            push = (\<lambda>u. Notify (map token (fcms u)) ''New Message''
                            (body_of (sp_username p)) NEW_MESSAGE);
            pushed = (\<lambda>u. notify env (map token (fcms u)) ''New Message''
                            (body_of (sp_username p)) NEW_MESSAGE)
        in (\<exists>rest. effects s' = effects s @ ev # rest) \<and>
           (\<forall>e. emitted = Some e \<longrightarrow> r = Inl e \<and> effects s' = effects s @ [ev]) \<and>
           (\<forall>e. emitted = None \<and> recorded = Some e \<longrightarrow>
                 r = Inl e \<and> effects s' = effects s @ [ev, AddNotification n]) \<and>
           (\<forall>u e. emitted = None \<and> recorded = None \<and> receiver = Some u \<and> pushed u = Some e \<longrightarrow>
                 r = Inl e \<and> effects s' = effects s @ [ev, AddNotification n, push u]) \<and>
           (\<forall>u. emitted = None \<and> recorded = None \<and> receiver = Some u \<and> pushed u = None \<longrightarrow>
                 r = Inr m \<and> effects s' = effects s @ [ev, AddNotification n, push u]))"
proof -
  assume r: "resolve s (sp_userFrom p) (sp_userTo p) = (Inr c, s1)" and snd: "send env s p = (r, s')"
  obtain m s3 where u: "send env s p = fan_out env s3 (sp_username p) m"
    and ms: "messagesModel s3 = messagesModel s @ [m]" and us: "usersModel s3 = usersModel s"
    and es: "effects s3 = effects s"
    and m: "m_userFrom m = Val (sp_userFrom p)" "m_userTo m = Val (sp_userTo p)"
      "m_conversation m = Val (c_id c)"
    and lm: "find (\<lambda>d. c_id d = c_id c) (conversationsModel s3) =
               Some (c\<lparr> c_lastMessage := Val (m_id m) \<rparr>)"
    using send_unfold [OF r, of env] by blast
  have fo: "fan_out env s3 (sp_username p) m = (r, s')" using u snd by simp
  note fs = fan_out_store [OF fo]
  note fc = fan_out_cases [OF m(2), of env s3 "sp_username p"]
  have 1: "messagesModel s' = messagesModel s @ [m]" using fs ms by simp
  have 2: "find (\<lambda>d. c_id d = c_id c) (conversationsModel s') =
             Some (c\<lparr> c_lastMessage := Val (m_id m) \<rparr>)" using fs lm by simp
  show ?thesis
    apply (rule exI [of _ m])
    apply (intro conjI 1 2)
    using fo fc m us es
    apply (auto simp add: Let_def split: option.splits)
    done
qed

theorem fan_out_sequential_witness:
  "resolve s_pending (sp_userFrom reply) (sp_userTo reply) =
     (Inr \<lparr> c_id = 0, c_userFrom = 10, c_userTo = 11, c_status = ACCEPTED, c_lastMessage = Val 1 \<rparr>,
      snd (resolve s_pending (sp_userFrom reply) (sp_userTo reply))) \<and>
   fst (send env_socket_down s_pending reply) = Inl (Rejected ''socket unavailable'') \<and>
   (\<exists>m. fst (send env_ok s_pending reply) = Inr m \<and>
        messagesModel (snd (send env_ok s_pending reply)) = messagesModel s_pending @ [m])"
proof -
  have h: "resolve s_pending (sp_userFrom reply) (sp_userTo reply) =
     (Inr \<lparr> c_id = 0, c_userFrom = 10, c_userTo = 11, c_status = ACCEPTED, c_lastMessage = Val 1 \<rparr>,
      snd (resolve s_pending (sp_userFrom reply) (sp_userTo reply)))"
    by (simp add: resolve_def s_pending_def reply_def pair_query_def Let_def)
  have g: "send env s_pending reply = (fst (send env s_pending reply), snd (send env s_pending reply))"
    for env by simp
  have u: "find (\<lambda>u. u_id u = sp_userTo reply) (usersModel s_pending) = Some alice"
    by (simp add: s_pending_def reply_def alice_def)
  have 1: "fst (send env_socket_down s_pending reply) = Inl (Rejected ''socket unavailable'')"
    using fan_out_sequential [OF h g [of env_socket_down]]
    by (auto simp add: Let_def env_socket_down_def)
  have 2: "\<exists>m. fst (send env_ok s_pending reply) = Inr m \<and>
        messagesModel (snd (send env_ok s_pending reply)) = messagesModel s_pending @ [m]"
    using fan_out_sequential [OF h g [of env_ok]] u
    by (auto simp add: Let_def env_ok_def)
  show ?thesis using h 1 2 by blast
qed

section \<open>Claims about the listings\<close>

text \<open>
  C5. Every entry that \<open>getConversations\<close> returns comes from a stored conversation that
  matches the participant query, whose lastMessage is a stored message and whose picked
  user is a stored user with a name matching the keyword. The \<open>user\<close> of the entry is
  that user projected to id, name and image; it is the stored \<open>userFrom\<close> when the
  caller equals the stored \<open>userTo\<close> and the stored \<open>userTo\<close> otherwise, which for a
  conversation between two different users is the participant other than the caller.
  With unique ids, totalCount counts exactly those conversations, and a conversation that
  fails one of the conditions has no entry in the data.
\<close>

theorem getConversations_peer:
  "\<exists>r. getConversations regex_i s p = Inr r \<and>
     (\<forall>e \<in> set (data r).
        \<exists>c \<in> set (conversationsModel s). \<exists>m \<in> set (messagesModel s). \<exists>u \<in> set (usersModel s).
          listed regex_i s (cp_user p) (keyword_of (cp_q p)) c \<and>
          cv_id e = c_id c \<and>
          c_lastMessage c = Val (m_id m) \<and> cv_lastMessage e = project_last m \<and>
          u_id u = (if Val (c_userTo c) = cp_user p then c_userFrom c else c_userTo c) \<and>
          name_matches regex_i (keyword_of (cp_q p)) u \<and>
          cv_user e = \<lparr> uv_id = u_id u, uv_name = u_name u, uv_image = u_image u \<rparr> \<and>
          (\<forall>caller. cp_user p = Val caller \<and> c_userFrom c \<noteq> c_userTo c \<longrightarrow>
             u_id u \<noteq> caller \<and> {u_id u, caller} = {c_userFrom c, c_userTo c})) \<and>
     (distinct (map m_id (messagesModel s)) \<and> distinct (map u_id (usersModel s)) \<longrightarrow>
        totalCount r =
          length (filter (listed regex_i s (cp_user p) (keyword_of (cp_q p))) (conversationsModel s))) \<and>
     (distinct (map c_id (conversationsModel s)) \<longrightarrow>
        (\<forall>c \<in> set (conversationsModel s).
           \<not> listed regex_i s (cp_user p) (keyword_of (cp_q p)) c \<longrightarrow> c_id c \<notin> cv_id ` set (data r)))"
proof -
  let ?kw = "keyword_of (cp_q p)"
  let ?rows = "conversation_rows regex_i s (cp_user p) ?kw"
  let ?r = "facet (page_of (cp_page p)) (limit_of (cp_limit p)) ?rows"
  have entry: "\<exists>c \<in> set (conversationsModel s). \<exists>m \<in> set (messagesModel s). \<exists>u \<in> set (usersModel s).
          listed regex_i s (cp_user p) ?kw c \<and>
          cv_id e = c_id c \<and>
          c_lastMessage c = Val (m_id m) \<and> cv_lastMessage e = project_last m \<and>
          u_id u = (if Val (c_userTo c) = cp_user p then c_userFrom c else c_userTo c) \<and>
          name_matches regex_i ?kw u \<and>
          cv_user e = \<lparr> uv_id = u_id u, uv_name = u_name u, uv_image = u_image u \<rparr> \<and>
          (\<forall>caller. cp_user p = Val caller \<and> c_userFrom c \<noteq> c_userTo c \<longrightarrow>
             u_id u \<noteq> caller \<and> {u_id u, caller} = {c_userFrom c, c_userTo c})"
    if e: "e \<in> set (data ?r)" for e
  proof -
    have "e \<in> set ?rows" using e by (rule in_data_facet)
    then obtain c m u where c: "c \<in> set (conversationsModel s)"
      and m: "m \<in> set (messagesModel s)" and u: "u \<in> set (usersModel s)"
      and q: "conversations_query (cp_user p) c" and lm: "Val (m_id m) = c_lastMessage c"
      and pe: "u_id u = peer_of (cp_user p) c" and nm: "name_matches regex_i ?kw u"
      and e: "e = \<lparr> cv_id = c_id c, cv_user = project_user u, cv_lastMessage = project_last m \<rparr>"
      unfolding rows_entry by blast
    have l: "listed regex_i s (cp_user p) ?kw c"
      unfolding listed_def using m u q lm pe nm by blast
    have other: "\<forall>caller. cp_user p = Val caller \<and> c_userFrom c \<noteq> c_userTo c \<longrightarrow>
             u_id u \<noteq> caller \<and> {u_id u, caller} = {c_userFrom c, c_userTo c}"
      using q pe by (auto simp add: conversations_query_def peer_of_def)
    have pe': "u_id u = (if Val (c_userTo c) = cp_user p then c_userFrom c else c_userTo c)"
      using pe by (simp add: peer_of_def)
    have cu: "cv_user e = \<lparr> uv_id = u_id u, uv_name = u_name u, uv_image = u_image u \<rparr>"
      using e by (simp add: project_user_def)
    have ci: "cv_id e = c_id c" and cl: "cv_lastMessage e = project_last m"
      using e by simp_all
    have lm': "c_lastMessage c = Val (m_id m)" using lm by simp
    show ?thesis
      using c m u l ci lm' cl pe' nm cu other by blast
  qed
  have count: "distinct (map m_id (messagesModel s)) \<and> distinct (map u_id (usersModel s)) \<longrightarrow>
        totalCount ?r = length (filter (listed regex_i s (cp_user p) ?kw) (conversationsModel s))"
    using length_rows_listed [of s regex_i "cp_user p" ?kw] by (simp add: facet_props)
  have excl: "c_id c \<notin> cv_id ` set (data ?r)"
    if d: "distinct (map c_id (conversationsModel s))" and c: "c \<in> set (conversationsModel s)"
      and n: "\<not> listed regex_i s (cp_user p) ?kw c" for c
  proof
    assume "c_id c \<in> cv_id ` set (data ?r)"
    then obtain e where e: "e \<in> set (data ?r)" "cv_id e = c_id c" by auto
    obtain c' where c': "c' \<in> set (conversationsModel s)" "listed regex_i s (cp_user p) ?kw c'"
      "cv_id e = c_id c'" using entry [OF e(1)] by blast
    have "c' = c" using d c c'(1,3) e(2) by (auto simp add: distinct_map inj_on_def)
    then show False using n c'(2) by simp
  qed
  show ?thesis
    apply (rule exI [of _ ?r])
    apply (intro conjI ballI impI)
       apply (rule getConversations_rows)
      apply (erule entry)
    using count apply blast
    using excl apply blast
    done
qed

theorem getConversations_peer_witness:
  "distinct (map m_id (messagesModel s_chat)) \<and> distinct (map u_id (usersModel s_chat)) \<and>
   distinct (map c_id (conversationsModel s_chat)) \<and>
   (\<exists>r. getConversations literal_i s_chat for_alice_car = Inr r \<and> totalCount r = 1 \<and>
        0 \<notin> cv_id ` set (data r) \<and> (\<forall>e \<in> set (data r). uv_id (cv_user e) = 12))"
proof -
  have kw: "keyword_of (cp_q for_alice_car) = ''CAR''"
    by (simp add: for_alice_car_def keyword_of_def trim_def is_space_def)
  have us: "cp_user for_alice_car = Val 10" by (simp add: for_alice_car_def)
  have d: "distinct (map m_id (messagesModel s_chat))" "distinct (map u_id (usersModel s_chat))"
    "distinct (map c_id (conversationsModel s_chat))"
    by (simp_all add: s_chat_def hi_def hello_def bye_def hey_def alice_def bob_def carol_def)
  have nm: "name_matches literal_i ''CAR'' alice = False" "name_matches literal_i ''CAR'' bob = False"
    "name_matches literal_i ''CAR'' carol = True"
    by (simp_all add: name_matches_def literal_i_def to_lower_def alice_def bob_def carol_def)
  have l: "filter (listed literal_i s_chat (Val 10) ''CAR'') (conversationsModel s_chat) =
             [\<lparr> c_id = 4, c_userFrom = 12, c_userTo = 10, c_status = PENDING, c_lastMessage = Val 5 \<rparr>]"
    unfolding listed_def using nm
    by (simp add: s_chat_def conversations_query_def peer_of_def hi_def hello_def bye_def hey_def
        alice_def bob_def carol_def)
  have c0: "\<lparr> c_id = 0, c_userFrom = 10, c_userTo = 11, c_status = ACCEPTED, c_lastMessage = Val 3 \<rparr>
              \<in> set (conversationsModel s_chat)"
    by (simp add: s_chat_def)
  have n0: "\<not> listed literal_i s_chat (Val 10) ''CAR''
              \<lparr> c_id = 0, c_userFrom = 10, c_userTo = 11, c_status = ACCEPTED, c_lastMessage = Val 3 \<rparr>"
  proof
    assume "listed literal_i s_chat (Val 10) ''CAR''
              \<lparr> c_id = 0, c_userFrom = 10, c_userTo = 11, c_status = ACCEPTED, c_lastMessage = Val 3 \<rparr>"
    then have "\<lparr> c_id = 0, c_userFrom = 10, c_userTo = 11, c_status = ACCEPTED, c_lastMessage = Val 3 \<rparr>
        \<in> set (filter (listed literal_i s_chat (Val 10) ''CAR'') (conversationsModel s_chat))"
      using c0 by simp
    then show False unfolding l by simp
  qed
  note inst = getConversations_peer [of literal_i s_chat for_alice_car, unfolded kw us]
  obtain r where r: "getConversations literal_i s_chat for_alice_car = Inr r"
    and e: "\<forall>e \<in> set (data r).
        \<exists>c \<in> set (conversationsModel s_chat). \<exists>m \<in> set (messagesModel s_chat).
          \<exists>u \<in> set (usersModel s_chat).
          listed literal_i s_chat (Val 10) ''CAR'' c \<and>
          cv_id e = c_id c \<and>
          c_lastMessage c = Val (m_id m) \<and> cv_lastMessage e = project_last m \<and>
          u_id u = (if Val (c_userTo c) = Val 10 then c_userFrom c else c_userTo c) \<and>
          name_matches literal_i ''CAR'' u \<and>
          cv_user e = \<lparr> uv_id = u_id u, uv_name = u_name u, uv_image = u_image u \<rparr> \<and>
          (\<forall>caller. Val 10 = Val caller \<and> c_userFrom c \<noteq> c_userTo c \<longrightarrow>
             u_id u \<noteq> caller \<and> {u_id u, caller} = {c_userFrom c, c_userTo c})"
    and n: "distinct (map m_id (messagesModel s_chat)) \<and> distinct (map u_id (usersModel s_chat)) \<longrightarrow>
        totalCount r = length (filter (listed literal_i s_chat (Val 10) ''CAR'')
                                     (conversationsModel s_chat))"
    and x: "distinct (map c_id (conversationsModel s_chat)) \<longrightarrow>
        (\<forall>c \<in> set (conversationsModel s_chat).
           \<not> listed literal_i s_chat (Val 10) ''CAR'' c \<longrightarrow> c_id c \<notin> cv_id ` set (data r))"
    using inst by (elim exE conjE) (rule that; assumption)
  have 1: "totalCount r = 1" using n d(1,2) unfolding l by simp
  have "\<forall>c \<in> set (conversationsModel s_chat).
           \<not> listed literal_i s_chat (Val 10) ''CAR'' c \<longrightarrow> c_id c \<notin> cv_id ` set (data r)"
    using x d(3) by (rule mp)
  then have "c_id \<lparr> c_id = 0, c_userFrom = 10, c_userTo = 11, c_status = ACCEPTED,
                     c_lastMessage = Val 3 \<rparr> \<notin> cv_id ` set (data r)"
    using c0 n0 by blast
  then have 2: "0 \<notin> cv_id ` set (data r)" by simp
  have 3: "uv_id (cv_user e) = 12" if "e \<in> set (data r)" for e
  proof -
    note ee = e [THEN bspec, OF that]
    then obtain u where u: "u \<in> set (usersModel s_chat)" "name_matches literal_i ''CAR'' u"
      "cv_user e = \<lparr> uv_id = u_id u, uv_name = u_name u, uv_image = u_image u \<rparr>"
      by (elim bexE conjE) (rule that)
    have "u = alice \<or> u = bob \<or> u = carol" using u(1) by (simp add: s_chat_def)
    then have "u = carol" using u(2) nm by blast
    then show ?thesis using u(3) by (simp add: carol_def)
  qed
  have 4: "\<forall>e \<in> set (data r). uv_id (cv_user e) = 12" using 3 by (rule ballI)
  show ?thesis
    by (intro conjI exI [of _ r] d r 1 2 4)
qed

text \<open>
  C6. For a well-addressed \<open>getMessages\<close> call with page \<open>pg\<close> (counted from 1) and
  limit \<open>l\<close>, the result is the slice of the matching messages, newest first, that skips
  \<open>(pg - 1) * l\<close> rows and has at most \<open>l\<close> items; totalCount is the number of
  matching messages and totalPages is the ceiling of totalCount / l. A page beyond the
  last has no data, and totalCount and totalPages are the same for every page. A missing
  page is page 1 and a missing limit is 10.
\<close>

theorem getMessages_page:
  "messages_query p = Some query \<Longrightarrow> gp_page p = Val pg \<Longrightarrow> 0 < pg \<Longrightarrow>
   gp_limit p = Val l \<Longrightarrow> 0 < l \<Longrightarrow>
   \<exists>rows r. getMessages s p = Inr r \<and>
     mset rows = mset (filter query (messagesModel s)) \<and>
     sorted_wrt (\<lambda>a b. m_createdAt b \<le> m_createdAt a) rows \<and>
     data r = map strip (take l (drop ((pg - 1) * l) rows)) \<and>
     length (data r) \<le> l \<and>
     totalCount r = length (filter query (messagesModel s)) \<and>
     int (totalPages r) = \<lceil>real (totalCount r) / real l\<rceil> \<and>
     (totalCount r \<le> (pg - 1) * l \<longrightarrow> data r = []) \<and>
     (\<forall>pg'. \<exists>r'. getMessages s (p\<lparr> gp_page := pg' \<rparr>) = Inr r' \<and>
         totalCount r' = totalCount r \<and> totalPages r' = totalPages r) \<and>
     getMessages s (p\<lparr> gp_page := Undefined \<rparr>) = getMessages s (p\<lparr> gp_page := Val 1 \<rparr>) \<and>
     getMessages s (p\<lparr> gp_limit := Undefined \<rparr>) = getMessages s (p\<lparr> gp_limit := Val 10 \<rparr>)"
proof -
  assume q: "messages_query p = Some query" and pg: "gp_page p = Val pg" "0 < pg"
    and l: "gp_limit p = Val l" "0 < l"
  let ?rows = "sort_createdAt_desc (filter query (messagesModel s))"
  let ?r = "facet (pg - 1) l (map strip ?rows)"
  have lim: "limit_of (gp_limit p) = l" using l by (simp add: limit_of_def)
  have page: "page_of (gp_page p) = pg - 1" using pg by (simp add: page_of_def)
  have g: "getMessages s p = Inr ?r"
    using q lim page by (simp add: getMessages_def Let_def)
  have 1: "mset ?rows = mset (filter query (messagesModel s))"
    by (rule sort_createdAt_desc_mset)
  have 2: "sorted_wrt (\<lambda>a b. m_createdAt b \<le> m_createdAt a) ?rows"
    by (rule sort_createdAt_desc_sorted)
  have 3: "data ?r = map strip (take l (drop ((pg - 1) * l) ?rows))"
    by (simp add: facet_props take_map drop_map)
  have 4: "length (data ?r) \<le> l" unfolding 3 by simp
  have 5: "totalCount ?r = length (filter query (messagesModel s))"
    by (simp add: facet_props sort_createdAt_desc_length)
  have 6: "int (totalPages ?r) = \<lceil>real (totalCount ?r) / real l\<rceil>"
    by (simp add: facet_props)
  have 7: "totalCount ?r \<le> (pg - 1) * l \<longrightarrow> data ?r = []"
    unfolding 3 5 by (simp add: sort_createdAt_desc_length)
  have 8: "\<exists>r'. getMessages s (p\<lparr> gp_page := pg' \<rparr>) = Inr r' \<and>
         totalCount r' = totalCount ?r \<and> totalPages r' = totalPages ?r" for pg'
    using q lim by (simp add: getMessages_def Let_def facet_def)
  have 9: "getMessages s (p\<lparr> gp_page := Undefined \<rparr>) = getMessages s (p\<lparr> gp_page := Val 1 \<rparr>)"
    by (simp add: getMessages_def page_of_def)
  have 10: "getMessages s (p\<lparr> gp_limit := Undefined \<rparr>) = getMessages s (p\<lparr> gp_limit := Val 10 \<rparr>)"
    by (simp add: getMessages_def limit_of_def)
  show ?thesis using g 1 2 3 4 5 6 7 8 9 10 by blast
qed

theorem getMessages_page_witness:
  "messages_query first_page = Some (\<lambda>m. m_conversation m = Val 0) \<and>
   gp_page first_page = Val 1 \<and> gp_limit first_page = Val 2 \<and>
   (\<exists>r. getMessages s_chat first_page = Inr r \<and> length (data r) \<le> 2 \<and> totalCount r = 3 \<and>
        totalPages r = 2)"
proof -
  have q: "messages_query first_page = Some (\<lambda>m. m_conversation m = Val 0)"
    by (simp add: messages_query_def first_page_def)
  have pg: "gp_page first_page = Val 1" and l: "gp_limit first_page = Val 2"
    by (simp_all add: first_page_def)
  have n: "length (filter (\<lambda>m. m_conversation m = Val 0) (messagesModel s_chat)) = 3"
    by (simp add: s_chat_def hi_def hello_def bye_def hey_def)
  obtain r where r: "getMessages s_chat first_page = Inr r" "length (data r) \<le> 2"
      "totalCount r = length (filter (\<lambda>m. m_conversation m = Val 0) (messagesModel s_chat))"
      "int (totalPages r) = \<lceil>real (totalCount r) / real 2\<rceil>"
    using getMessages_page [OF q pg _ l, of s_chat] by auto
  have "int (totalPages r) = 2" using r(3,4) n by simp
  then show ?thesis using q pg l r n by auto
qed

text \<open>
  C7. \<open>getMessages\<close> fails exactly when neither a conversation id nor both users of a
  pair are supplied, and every failure is an InvalidArgument; a call addressed by a
  conversation id, or by a pair, that matches no message returns the empty page with
  totalCount 0 and totalPages 0.
\<close>

theorem getMessages_failure:
  "((\<exists>e. getMessages s p = Inl e) \<longleftrightarrow>
      \<not> truthy_obj (gp_conversation p) \<and> \<not> (truthy_obj (gp_user1 p) \<and> truthy_obj (gp_user2 p))) \<and>
   (\<forall>e. getMessages s p = Inl e \<longrightarrow> InvalidArgument e) \<and>
   (\<forall>c. gp_conversation p = Val c \<and> (\<forall>m \<in> set (messagesModel s). m_conversation m \<noteq> Val c) \<longrightarrow>
      getMessages s p = Inr \<lparr> success = True, data = [], totalCount = 0, totalPages = 0 \<rparr>) \<and>
   (\<forall>a b. \<not> truthy_obj (gp_conversation p) \<and> gp_user1 p = Val a \<and> gp_user2 p = Val b \<and>
      (\<forall>m \<in> set (messagesModel s).
          \<not> (m_userTo m = Val a \<and> m_userFrom m = Val b) \<and>
          \<not> (m_userFrom m = Val a \<and> m_userTo m = Val b)) \<longrightarrow>
      getMessages s p = Inr \<lparr> success = True, data = [], totalCount = 0, totalPages = 0 \<rparr>)"
proof (intro conjI allI impI)
  show "(\<exists>e. getMessages s p = Inl e) \<longleftrightarrow>
      \<not> truthy_obj (gp_conversation p) \<and> \<not> (truthy_obj (gp_user1 p) \<and> truthy_obj (gp_user2 p))"
    using messages_query_None [of p]
    by (cases "messages_query p") (simp_all add: getMessages_def Let_def)
next
  fix e assume "getMessages s p = Inl e"
  then show "InvalidArgument e"
    by (cases "messages_query p") (auto simp add: getMessages_def Let_def)
next
  fix c
  assume a: "gp_conversation p = Val c \<and> (\<forall>m \<in> set (messagesModel s). m_conversation m \<noteq> Val c)"
  then have "filter (\<lambda>m. m_conversation m = Val c) (messagesModel s) = []"
    by (simp add: filter_empty_conv)
  then show "getMessages s p = Inr \<lparr> success = True, data = [], totalCount = 0, totalPages = 0 \<rparr>"
    using a by (simp add: getMessages_def messages_query_def Let_def facet_def sort_createdAt_desc_def)
next
  fix a b
  assume a: "\<not> truthy_obj (gp_conversation p) \<and> gp_user1 p = Val a \<and> gp_user2 p = Val b \<and>
      (\<forall>m \<in> set (messagesModel s).
          \<not> (m_userTo m = Val a \<and> m_userFrom m = Val b) \<and>
          \<not> (m_userFrom m = Val a \<and> m_userTo m = Val b))"
  then have "filter (\<lambda>m. (m_userTo m = Val a \<and> m_userFrom m = Val b) \<or>
                          (m_userFrom m = Val a \<and> m_userTo m = Val b)) (messagesModel s) = []"
    by (simp add: filter_empty_conv)
  then show "getMessages s p = Inr \<lparr> success = True, data = [], totalCount = 0, totalPages = 0 \<rparr>"
    using a by (cases "gp_conversation p")
      (simp_all add: getMessages_def messages_query_def Let_def facet_def sort_createdAt_desc_def)
qed

theorem getMessages_failure_witness:
  "\<not> truthy_obj (gp_conversation no_address) \<and> \<not> truthy_obj (gp_user2 no_address) \<and>
   (\<exists>e. getMessages s_chat no_address = Inl e \<and> InvalidArgument e) \<and>
   gp_conversation unknown_conversation = Val 42 \<and>
   getMessages s_chat unknown_conversation =
     Inr \<lparr> success = True, data = [], totalCount = 0, totalPages = 0 \<rparr>"
proof -
  have a: "\<not> truthy_obj (gp_conversation no_address)" "\<not> truthy_obj (gp_user2 no_address)"
    by (simp_all add: no_address_def)
  have c: "gp_conversation unknown_conversation = Val 42"
    by (simp add: unknown_conversation_def)
  have n: "\<forall>m \<in> set (messagesModel s_chat). m_conversation m \<noteq> Val 42"
    by (simp add: s_chat_def hi_def hello_def bye_def hey_def)
  have 1: "\<exists>e. getMessages s_chat no_address = Inl e \<and> InvalidArgument e"
    using getMessages_failure [of s_chat no_address] a by blast
  have 2: "getMessages s_chat unknown_conversation =
     Inr \<lparr> success = True, data = [], totalCount = 0, totalPages = 0 \<rparr>"
    using getMessages_failure [of s_chat unknown_conversation] c n by blast
  show ?thesis using a c 1 2 by blast
qed

text \<open>
  C10. Without a \<open>user\<close> argument \<open>getConversations\<close> does not fail: the participant
  query accepts every conversation, the picked user is the stored \<open>userTo\<close>, and the
  page and totalCount are taken from the rows of all conversations of the store that have
  a stored last message and a stored \<open>userTo\<close> with a matching name, whoever takes
  part in them.
\<close>

theorem getConversations_without_user:
  "\<not> truthy_obj (cp_user p) \<Longrightarrow>
   \<exists>r rows. getConversations regex_i s p = Inr r \<and>
     data r = take (limit_of (cp_limit p))
                (drop (page_of (cp_page p) * limit_of (cp_limit p)) rows) \<and>
     totalCount r = length rows \<and>
     (\<forall>c. conversations_query (cp_user p) c) \<and>
     (\<forall>e. e \<in> set rows \<longleftrightarrow>
        (\<exists>c \<in> set (conversationsModel s). \<exists>m \<in> set (messagesModel s). \<exists>u \<in> set (usersModel s).
           Val (m_id m) = c_lastMessage c \<and> u_id u = c_userTo c \<and>
           name_matches regex_i (keyword_of (cp_q p)) u \<and>
           e = \<lparr> cv_id = c_id c, cv_user = project_user u, cv_lastMessage = project_last m \<rparr>)) \<and>
     (distinct (map m_id (messagesModel s)) \<and> distinct (map u_id (usersModel s)) \<longrightarrow>
        totalCount r =
          length (filter (\<lambda>c. (\<exists>m \<in> set (messagesModel s). Val (m_id m) = c_lastMessage c) \<and>
                               (\<exists>u \<in> set (usersModel s). u_id u = c_userTo c \<and>
                                   name_matches regex_i (keyword_of (cp_q p)) u))
                    (conversationsModel s)))"
proof -
  assume nu: "\<not> truthy_obj (cp_user p)"
  let ?kw = "keyword_of (cp_q p)"
  let ?rows = "conversation_rows regex_i s (cp_user p) ?kw"
  let ?r = "facet (page_of (cp_page p)) (limit_of (cp_limit p)) ?rows"
  have q: "conversations_query (cp_user p) c" for c
    using nu by (cases "cp_user p") (simp_all add: conversations_query_def)
  have pe: "peer_of (cp_user p) c = c_userTo c" for c
    using nu by (cases "cp_user p") (simp_all add: peer_of_def)
  have li: "listed regex_i s (cp_user p) ?kw =
      (\<lambda>c. (\<exists>m \<in> set (messagesModel s). Val (m_id m) = c_lastMessage c) \<and>
           (\<exists>u \<in> set (usersModel s). u_id u = c_userTo c \<and> name_matches regex_i ?kw u))"
    by (simp add: listed_def q pe fun_eq_iff)
  have 1: "data ?r = take (limit_of (cp_limit p))
                (drop (page_of (cp_page p) * limit_of (cp_limit p)) ?rows)"
    by (simp add: facet_props)
  have 2: "totalCount ?r = length ?rows" by (simp add: facet_props)
  have 3: "\<forall>e. e \<in> set ?rows \<longleftrightarrow>
        (\<exists>c \<in> set (conversationsModel s). \<exists>m \<in> set (messagesModel s). \<exists>u \<in> set (usersModel s).
           Val (m_id m) = c_lastMessage c \<and> u_id u = c_userTo c \<and>
           name_matches regex_i ?kw u \<and>
           e = \<lparr> cv_id = c_id c, cv_user = project_user u, cv_lastMessage = project_last m \<rparr>)"
    unfolding rows_entry by (simp add: q pe)
  have 4: "distinct (map m_id (messagesModel s)) \<and> distinct (map u_id (usersModel s)) \<longrightarrow>
        totalCount ?r =
          length (filter (\<lambda>c. (\<exists>m \<in> set (messagesModel s). Val (m_id m) = c_lastMessage c) \<and>
                               (\<exists>u \<in> set (usersModel s). u_id u = c_userTo c \<and>
                                   name_matches regex_i ?kw u))
                    (conversationsModel s))"
    using length_rows_listed [of s regex_i "cp_user p" ?kw] unfolding li 2 by simp
  have 5: "\<forall>c. conversations_query (cp_user p) c" using q by simp
  show ?thesis
    by (intro exI [of _ ?r] exI [of _ ?rows] conjI getConversations_rows 1 2 3 4 5)
qed

theorem getConversations_without_user_witness:
  "\<not> truthy_obj (cp_user for_nobody) \<and>
   (\<exists>r. getConversations literal_i s_chat for_nobody = Inr r \<and> totalCount r = 2)"
proof -
  have nu: "\<not> truthy_obj (cp_user for_nobody)" by (simp add: for_nobody_def)
  have kw: "keyword_of (cp_q for_nobody) = []" by (simp add: for_nobody_def keyword_of_def)
  have d: "distinct (map m_id (messagesModel s_chat)) \<and> distinct (map u_id (usersModel s_chat))"
    by (simp add: s_chat_def hi_def hello_def bye_def hey_def alice_def bob_def carol_def)
  have nm: "name_matches literal_i [] alice" "name_matches literal_i [] bob"
    "name_matches literal_i [] carol"
    by (simp_all add: name_matches_def literal_i_def alice_def bob_def carol_def)
  have l: "length (filter (\<lambda>c. (\<exists>m \<in> set (messagesModel s_chat). Val (m_id m) = c_lastMessage c) \<and>
                               (\<exists>u \<in> set (usersModel s_chat). u_id u = c_userTo c \<and>
                                   name_matches literal_i [] u))
                    (conversationsModel s_chat)) = 2"
    using nm
    by (simp add: s_chat_def hi_def hello_def bye_def hey_def alice_def bob_def carol_def)
  note inst = getConversations_without_user [OF nu, of literal_i s_chat, unfolded kw]
  obtain r where r: "getConversations literal_i s_chat for_nobody = Inr r"
    and n: "distinct (map m_id (messagesModel s_chat)) \<and> distinct (map u_id (usersModel s_chat)) \<longrightarrow>
        totalCount r =
          length (filter (\<lambda>c. (\<exists>m \<in> set (messagesModel s_chat). Val (m_id m) = c_lastMessage c) \<and>
                               (\<exists>u \<in> set (usersModel s_chat). u_id u = c_userTo c \<and>
                                   name_matches literal_i [] u))
                    (conversationsModel s_chat))"
    using inst by (elim exE conjE) (rule that)
  have "totalCount r = 2" using n [THEN mp, OF d] unfolding l .
  then show ?thesis using nu r by blast
qed

section \<open>Claims about the message operations\<close>

text \<open>
  C8, as the claim states it, fails: deleting with a well-formed id that matches no row
  does not fail with NotFound (code 404).
\<close>

theorem deleteMessage_unknown_id_counterexample:
  "fst (deleteMessage s_pending (Val 9)) = Inl (Error ''Please enter valid message id!'' 400) \<and>
   \<not> NotFound (Error ''Please enter valid message id!'' 400) \<and>
   find (\<lambda>m. m_id m = 9) (messagesModel s_pending) = None"
  by (simp add: deleteMessage_def s_pending_def hi_def)

text \<open>
  C8, amended. \<open>deleteMessage\<close> without a message id fails with InvalidArgument ("Please
  enter message id!", 400); with an id that matches no row it fails with InvalidArgument
  as well ("Please enter valid message id!", 400) and leaves the store as it was; with an
  id that matches a row it returns that row and removes it from the messages, after which
  no row has that id (ids being unique).
\<close>

theorem deleteMessage_cases:
  "(\<not> truthy_obj message \<longrightarrow>
      deleteMessage s message = (Inl (Error ''Please enter message id!'' 400), s) \<and>
      InvalidArgument (Error ''Please enter message id!'' 400)) \<and>
   (message = Val i \<and> i \<notin> m_id ` set (messagesModel s) \<longrightarrow>
      deleteMessage s message = (Inl (Error ''Please enter valid message id!'' 400), s) \<and>
      InvalidArgument (Error ''Please enter valid message id!'' 400) \<and>
      \<not> NotFound (Error ''Please enter valid message id!'' 400)) \<and>
   (message = Val i \<and> i \<in> m_id ` set (messagesModel s) \<longrightarrow>
      (\<exists>m s'. deleteMessage s message = (Inr m, s') \<and> m \<in> set (messagesModel s) \<and> m_id m = i \<and>
         mset (messagesModel s') = mset (messagesModel s) - {#m#} \<and>
         conversationsModel s' = conversationsModel s \<and>
         (distinct (map m_id (messagesModel s)) \<longrightarrow> i \<notin> m_id ` set (messagesModel s'))))"
proof (intro conjI impI)
  assume "\<not> truthy_obj message"
  then show "deleteMessage s message = (Inl (Error ''Please enter message id!'' 400), s)"
    by (cases message) (simp_all add: deleteMessage_def)
next
  assume "message = Val i \<and> i \<notin> m_id ` set (messagesModel s)"
  then show "deleteMessage s message = (Inl (Error ''Please enter valid message id!'' 400), s)"
    using find_None_ids [of i "messagesModel s"] by (simp add: deleteMessage_def)
next
  assume a: "message = Val i \<and> i \<in> m_id ` set (messagesModel s)"
  then obtain m where m: "find (\<lambda>m. m_id m = i) (messagesModel s) = Some m"
    using find_None_ids [of i "messagesModel s"]
    by (cases "find (\<lambda>m. m_id m = i) (messagesModel s)") auto
  show "\<exists>m s'. deleteMessage s message = (Inr m, s') \<and> m \<in> set (messagesModel s) \<and> m_id m = i \<and>
         mset (messagesModel s') = mset (messagesModel s) - {#m#} \<and>
         conversationsModel s' = conversationsModel s \<and>
         (distinct (map m_id (messagesModel s)) \<longrightarrow> i \<notin> m_id ` set (messagesModel s'))"
    using a m find_delete_by_id [OF m] delete_by_id_distinct [of "messagesModel s" i]
    by (simp add: deleteMessage_def)
qed simp_all

theorem deleteMessage_cases_witness:
  "\<not> truthy_obj (Undefined :: oid js) \<and> 9 \<notin> m_id ` set (messagesModel s_pending) \<and>
   1 \<in> m_id ` set (messagesModel s_pending) \<and>
   deleteMessage s_pending Undefined = (Inl (Error ''Please enter message id!'' 400), s_pending) \<and>
   deleteMessage s_pending (Val 9) = (Inl (Error ''Please enter valid message id!'' 400), s_pending) \<and>
   (\<exists>s'. deleteMessage s_pending (Val 1) = (Inr hi, s') \<and> messagesModel s' = [])"
proof -
  have ms: "messagesModel s_pending = [hi]" by (simp add: s_pending_def)
  have a: "\<not> truthy_obj (Undefined :: oid js)" by simp
  have b: "9 \<notin> m_id ` set (messagesModel s_pending)" unfolding ms by (simp add: hi_def)
  have c: "1 \<in> m_id ` set (messagesModel s_pending)" unfolding ms by (simp add: hi_def)
  have 1: "deleteMessage s_pending Undefined =
             (Inl (Error ''Please enter message id!'' 400), s_pending)"
    using deleteMessage_cases [where message = Undefined and s = s_pending] a by blast
  have 2: "deleteMessage s_pending (Val 9) =
             (Inl (Error ''Please enter valid message id!'' 400), s_pending)"
    using deleteMessage_cases [where message = "Val 9" and i = 9 and s = s_pending] b by blast
  obtain m s' where d: "deleteMessage s_pending (Val 1) = (Inr m, s')"
    "m \<in> set (messagesModel s_pending)"
    "mset (messagesModel s') = mset (messagesModel s_pending) - {#m#}"
    using deleteMessage_cases [where message = "Val 1" and i = 1 and s = s_pending] c by blast
  have m: "m = hi" using d(2) unfolding ms by simp
  have "mset (messagesModel s') = {#}" using d(3) unfolding ms m by simp
  then have "messagesModel s' = []" by simp
  then have 3: "\<exists>s'. deleteMessage s_pending (Val 1) = (Inr hi, s') \<and> messagesModel s' = []"
    using d(1) m by blast
  show ?thesis using a b c 1 2 3 by blast
qed

text \<open>
  C9, as the claim states it, fails: the stored path of an attachment is not the storage
  path of the upload.
\<close>

theorem addMessage_path_counterexample:
  "m_attachments (fst (addMessage s_empty p_png)) =
     Val [\<lparr> a_path = filename png, a_type = mimetype png \<rparr>] \<and>
   truthy_str (path png) \<and> filename png \<noteq> path png"
  by (simp add: addMessage_def messages_create_def build_messageObj_def p_png_def png_def
      no_path_def s_empty_def Let_def)

text \<open>
  C9, amended. The message that \<open>addMessage\<close> stores has exactly one attachment entry per
  uploaded file that carries a non-empty storage path, in order; the entry's stored path
  is the upload's file name and its stored type is the upload's mime type; uploads without
  a storage path are dropped. A text that is absent (or empty), and attachments, sender,
  receiver or conversation that are absent, are left out of the stored document; none of
  these fields is ever stored as null.
\<close>

theorem addMessage_stored:
  "\<exists>m s'. addMessage s p = (m, s') \<and> messagesModel s' = messagesModel s @ [m] \<and>
     (\<forall>fs. ap_attachments p = Val fs \<longrightarrow>
        m_attachments m =
          Val (map (\<lambda>f. \<lparr> a_path = filename f, a_type = mimetype f \<rparr>)
                 (filter (\<lambda>f. truthy_str (path f)) fs))) \<and>
     (ap_attachments p \<in> {Undefined, Null} \<longrightarrow> m_attachments m = Undefined) \<and>
     (m_text m = (if truthy_str (ap_text p) then ap_text p else Undefined)) \<and>
     (ap_userFrom p \<in> {Undefined, Null} \<longrightarrow> m_userFrom m = Undefined) \<and>
     (ap_userTo p \<in> {Undefined, Null} \<longrightarrow> m_userTo m = Undefined) \<and>
     (ap_conversation p \<in> {Undefined, Null} \<longrightarrow> m_conversation m = Undefined) \<and>
     m_userFrom m \<noteq> Null \<and> m_userTo m \<noteq> Null \<and> m_conversation m \<noteq> Null \<and>
     m_text m \<noteq> Null \<and> m_attachments m \<noteq> Null"
proof -
  obtain m s' where ms: "addMessage s p = (m, s')" by (cases "addMessage s p")
  have m: "m = fst (addMessage s p)" and s': "s' = snd (addMessage s p)" using ms by simp_all
  have 1: "messagesModel s' = messagesModel s @ [m]"
    unfolding m s' by (simp add: addMessage_def messages_create_def Let_def)
  have 2: "\<forall>fs. ap_attachments p = Val fs \<longrightarrow>
        m_attachments m =
          Val (map (\<lambda>f. \<lparr> a_path = filename f, a_type = mimetype f \<rparr>)
                 (filter (\<lambda>f. truthy_str (path f)) fs))"
    unfolding m
    by (simp add: addMessage_def messages_create_def Let_def build_messageObj_def
        push_attachments_map_filter)
  have 3: "ap_attachments p \<in> {Undefined, Null} \<longrightarrow> m_attachments m = Undefined"
    unfolding m by (auto simp add: addMessage_def messages_create_def Let_def build_messageObj_def)
  have 4: "m_text m = (if truthy_str (ap_text p) then ap_text p else Undefined)"
    unfolding m by (simp add: addMessage_def messages_create_def Let_def build_messageObj_def)
  have 5: "ap_userFrom p \<in> {Undefined, Null} \<longrightarrow> m_userFrom m = Undefined"
    "ap_userTo p \<in> {Undefined, Null} \<longrightarrow> m_userTo m = Undefined"
    "ap_conversation p \<in> {Undefined, Null} \<longrightarrow> m_conversation m = Undefined"
    unfolding m by (auto simp add: addMessage_def messages_create_def Let_def build_messageObj_def)
  have 6: "m_userFrom m \<noteq> Null" "m_userTo m \<noteq> Null" "m_conversation m \<noteq> Null"
    unfolding m
    by (cases "ap_userFrom p"; cases "ap_userTo p"; cases "ap_conversation p";
        simp add: addMessage_def messages_create_def Let_def build_messageObj_def)+
  have 7: "m_text m \<noteq> Null"
    unfolding m
    by (cases "ap_text p") (simp_all add: addMessage_def messages_create_def Let_def build_messageObj_def)
  have 8: "m_attachments m \<noteq> Null"
    unfolding m
    by (cases "ap_attachments p") (simp_all add: addMessage_def messages_create_def Let_def build_messageObj_def)
  show ?thesis using ms 1 2 3 4 5 6 7 8 by blast
qed

theorem addMessage_stored_witness:
  "ap_attachments p_png = Val [png, no_path] \<and> ap_text p_png \<in> {Undefined, Null} \<and>
   (\<exists>m s'. addMessage s_empty p_png = (m, s') \<and> messagesModel s' = [m] \<and>
      m_attachments m = Val [\<lparr> a_path = Val ''1700-cat.png'', a_type = Val ''image/png'' \<rparr>] \<and>
      m_text m = Undefined)"
  using addMessage_stored [where s = s_empty and p = p_png]
  by (auto simp add: p_png_def png_def no_path_def s_empty_def)

end
